theory Spec2Isabelle
  imports Main "HOL-Library.AList"
begin

section \<open>Go maps and slices\<close>

text \<open>
  A Go map with string keys is an association list with one pair per key
  (\<^const>\<open>map_of\<close> reads it, \<^const>\<open>AList.update\<close> writes it,
  \<^const>\<open>AList.delete\<close> is Go's \<^verbatim>\<open>delete\<close>).  A \<^verbatim>\<open>range\<close> over a map visits the pairs in
  the order of the list; Go leaves that order unspecified.  Indexing a map of slices at a
  missing key gives the nil slice, which behaves as the empty one.
\<close>

type_synonym 'v gomap = "(string \<times> 'v) list"

definition at_key :: "'v list gomap \<Rightarrow> string \<Rightarrow> 'v list" where
  "at_key m k = (case map_of m k of None \<Rightarrow> [] | Some xs \<Rightarrow> xs)"

section \<open>Strings\<close>

text \<open>
  Go strings are byte sequences, here \<^typ>\<open>string\<close>.  The functions of package
  \<^verbatim>\<open>strings\<close> that the sources call; \<^verbatim>\<open>Index\<close> and \<^verbatim>\<open>LastIndex\<close> return \<open>None\<close> for Go's
  \<open>-1\<close>.  \<open>Split\<close> is \<^verbatim>\<open>strings.Split\<close> at a one-byte separator, the only use made of it.
\<close>

fun HasPrefix :: "string \<Rightarrow> string \<Rightarrow> bool" where
  "HasPrefix s [] = True"
| "HasPrefix [] (p # ps) = False"
| "HasPrefix (c # cs) (p # ps) = (c = p \<and> HasPrefix cs ps)"

definition TrimPrefix :: "string \<Rightarrow> string \<Rightarrow> string" where
  "TrimPrefix s p = (if HasPrefix s p then drop (length p) s else s)"

fun Contains :: "string \<Rightarrow> string \<Rightarrow> bool" where
  "Contains [] sub = (sub = [])"
| "Contains (c # cs) sub = (HasPrefix (c # cs) sub \<or> Contains cs sub)"

fun Index :: "string \<Rightarrow> string \<Rightarrow> nat option" where
  "Index [] sub = (if sub = [] then Some 0 else None)"
| "Index (c # cs) sub =
     (if HasPrefix (c # cs) sub then Some 0 else map_option Suc (Index cs sub))"

fun LastIndex :: "string \<Rightarrow> string \<Rightarrow> nat option" where
  "LastIndex [] sub = (if sub = [] then Some 0 else None)"
| "LastIndex (c # cs) sub =
     (case LastIndex cs sub of
        Some i \<Rightarrow> Some (Suc i)
      | None \<Rightarrow> if HasPrefix (c # cs) sub then Some 0 else None)"

fun Split :: "string \<Rightarrow> char \<Rightarrow> string list" where
  "Split [] sep = [[]]"
| "Split (c # cs) sep =
     (if c = sep then [] # Split cs sep
      else (case Split cs sep of [] \<Rightarrow> [[c]] | x # xs \<Rightarrow> (c # x) # xs))"

fun Join :: "string list \<Rightarrow> string \<Rightarrow> string" where
  "Join [] sep = []"
| "Join [x] sep = x"
| "Join (x # y # ys) sep = x @ sep @ Join (y # ys) sep"

text \<open>
  \<^verbatim>\<open>strings.TrimSpace\<close> removes the leading and the trailing white-space characters of
  Unicode.  \<open>spaceRunes\<close> lists their UTF-8 encodings: tab to carriage return and the space,
  then U+0085, U+00A0, U+1680, U+2000 to U+200A, U+2028, U+2029, U+202F, U+205F and U+3000.
\<close>

definition spaceRunes :: "string list" where
  "spaceRunes =
     [[CHR 0x09], [CHR 0x0A], [CHR 0x0B], [CHR 0x0C], [CHR 0x0D], [CHR 0x20],
      [CHR 0xC2, CHR 0x85], [CHR 0xC2, CHR 0xA0], [CHR 0xE1, CHR 0x9A, CHR 0x80],
      [CHR 0xE2, CHR 0x80, CHR 0x80], [CHR 0xE2, CHR 0x80, CHR 0x81],
      [CHR 0xE2, CHR 0x80, CHR 0x82], [CHR 0xE2, CHR 0x80, CHR 0x83],
      [CHR 0xE2, CHR 0x80, CHR 0x84], [CHR 0xE2, CHR 0x80, CHR 0x85],
      [CHR 0xE2, CHR 0x80, CHR 0x86], [CHR 0xE2, CHR 0x80, CHR 0x87],
      [CHR 0xE2, CHR 0x80, CHR 0x88], [CHR 0xE2, CHR 0x80, CHR 0x89],
      [CHR 0xE2, CHR 0x80, CHR 0x8A], [CHR 0xE2, CHR 0x80, CHR 0xA8],
      [CHR 0xE2, CHR 0x80, CHR 0xA9], [CHR 0xE2, CHR 0x80, CHR 0xAF],
      [CHR 0xE2, CHR 0x81, CHR 0x9F], [CHR 0xE3, CHR 0x80, CHR 0x80]]"

lemma HasPrefix_length: "HasPrefix s p \<Longrightarrow> length p \<le> length s"
  by (induction s p rule: HasPrefix.induct) auto

function trimLeftRunes :: "string list \<Rightarrow> string \<Rightarrow> string" where
  "trimLeftRunes runes s =
     (case List.find (\<lambda>r. r \<noteq> [] \<and> HasPrefix s r) runes of
        None \<Rightarrow> s
      | Some r \<Rightarrow> trimLeftRunes runes (drop (length r) s))"
  by pat_completeness auto

lemma trimLeftRunes_shorter:
  assumes "List.find (\<lambda>r. r \<noteq> [] \<and> HasPrefix s r) runes = Some r"
  shows "length (drop (length r) s) < length s"
proof -
  have "r \<noteq> []" and "HasPrefix s r"
    using assms by (auto simp: find_Some_iff)
  then show ?thesis
    using HasPrefix_length[of s r] by (cases r) auto
qed

termination trimLeftRunes
  by (relation "measure (\<lambda>(runes, s). length s)") (auto dest: trimLeftRunes_shorter)

declare trimLeftRunes.simps [simp del]

definition TrimSpace :: "string \<Rightarrow> string" where
  "TrimSpace s =
     rev (trimLeftRunes (map rev spaceRunes) (rev (trimLeftRunes spaceRunes s)))"

section \<open>The environment: file system, path library, Go tool chain\<close>

text \<open>
  What the program obtains from outside itself is a parameter of the model: the functions of
  \<^verbatim>\<open>path/filepath\<close> and \<^verbatim>\<open>os\<close>, the parser of \<^verbatim>\<open>go/parser\<close>, the command \<^verbatim>\<open>go list\<close> and
  the importer of \<^verbatim>\<open>go/build\<close>.  A failing call is \<open>None\<close>, except \<^verbatim>\<open>os.Stat\<close>, whose
  failure \<^verbatim>\<open>os.IsNotExist\<close> tells apart, and \<^verbatim>\<open>go list\<close>, which yields the fields of its
  standard output together with whether the command failed.  \<open>parser_ParseFile\<close> gives the
  text of the parse error, \<open>None\<close> when the file parses.
\<close>

datatype stat_result = StatOk nat | StatNotExist | StatError

record build_Package =
  Name :: string
  Dir :: string
  Imports :: "string list"
  TestImports :: "string list"
  XTestImports :: "string list"
  GoFiles :: "string list"
  TestGoFiles :: "string list"
  XTestGoFiles :: "string list"

record world =
  filepath_IsAbs :: "string \<Rightarrow> bool"
  filepath_Join :: "string \<Rightarrow> string \<Rightarrow> string"
  filepath_Abs :: "string \<Rightarrow> string option"
  filepath_Rel :: "string \<Rightarrow> string \<Rightarrow> string option"
  filepath_Clean :: "string \<Rightarrow> string"
  filepath_Base :: "string \<Rightarrow> string"
  filepath_Dir :: "string \<Rightarrow> string"
  filepath_Ext :: "string \<Rightarrow> string"
  os_Getwd :: "string option"
  os_Stat :: "string \<Rightarrow> stat_result"
  os_ReadFile :: "string \<Rightarrow> string option"
  parser_ParseFile :: "string \<Rightarrow> string option"
  go_list :: "string \<Rightarrow> string \<Rightarrow> string list \<times> bool"
  build_ImportDir :: "string \<Rightarrow> build_Package option"
  build_Import :: "string \<Rightarrow> string \<Rightarrow> build_Package option"

datatype error =
    EmptyFileAbsPath
  | EmptyHandlerPath
  | CannotResolveAbs
  | HandlerMainMissing
  | HandlerMainInaccessible
  | FileValidationFailed error
  | CacheUpdateFailed error
  | StatFailed
  | ParserFailed string
  | GoListFailed
  | ImportFailed
  | ListPackagesFailed error
  | GetPackagesFailed error
  | RefreshFailed

section \<open>The finder and its cache\<close>

text \<open>
  The struct \<^verbatim>\<open>GoDepFind\<close>.  Its methods mutate the receiver; in the model each of them
  takes the finder and returns the finder it leaves behind, next to its Go result.  A result
  \<^verbatim>\<open>error\<close> is an \<^typ>\<open>error option\<close> (\<open>None\<close> for \<^verbatim>\<open>nil\<close>), a result \<^verbatim>\<open>(string, error)\<close> is a
  sum.  The package cache maps to \<^verbatim>\<open>*build.Package\<close>; no code path stores a nil pointer in
  it, so its values are packages.
\<close>

record GoDepFind =
  rootDir :: string
  testImports :: bool
  cachedModule :: bool
  packageCache :: "build_Package gomap"
  dependencyGraph :: "string list gomap"
  reverseDeps :: "string list gomap"
  filePathToPackage :: "string gomap"
  fileToPackages :: "string list gomap"
  mainPackages :: "string list"

definition New :: "string \<Rightarrow> GoDepFind" where
  "New dir =
     \<lparr>rootDir = (if dir = [] then ''.'' else dir), testImports = False, cachedModule = False,
      packageCache = [], dependencyGraph = [], reverseDeps = [], filePathToPackage = [],
      fileToPackages = [], mainPackages = []\<rparr>"

subsection \<open>Listing and importing packages\<close>

text \<open>
  \<^verbatim>\<open>getPackages\<close> tries, for each listed path, the directory below the root named by the
  path without its first element (\<open>importModulePath\<close>), then the directory named by the whole
  path, each only if \<^verbatim>\<open>os.Stat\<close> succeeds (\<open>importIfExists\<close>), and at last \<^verbatim>\<open>build.Import\<close>,
  whose failure aborts the loop.
\<close>

definition listPackages :: "world \<Rightarrow> string \<Rightarrow> string \<Rightarrow> error + string list" where
  "listPackages w root path =
     (case go_list w root path of
        (packages, failed) \<Rightarrow>
          if packages \<noteq> [] then Inr packages
          else if failed then Inl GoListFailed
          else Inr packages)"

definition importIfExists :: "world \<Rightarrow> string \<Rightarrow> build_Package option" where
  "importIfExists w fullPath =
     (case os_Stat w fullPath of StatOk n \<Rightarrow> build_ImportDir w fullPath | _ \<Rightarrow> None)"

definition importModulePath :: "world \<Rightarrow> string \<Rightarrow> string \<Rightarrow> build_Package option" where
  "importModulePath w root path =
     (if Contains path ''/'' then
        (let parts = Split path CHR ''/'' in
         if 2 \<le> length parts
         then importIfExists w (filepath_Join w root (Join (tl parts) ''/''))
         else None)
      else None)"

fun getPackages_from ::
    "world \<Rightarrow> string \<Rightarrow> string list \<Rightarrow> build_Package gomap \<Rightarrow> error + build_Package gomap"
where
  "getPackages_from w root [] packages = Inr packages"
| "getPackages_from w root (path # paths) packages =
     (case importModulePath w root path of
        Some pkg \<Rightarrow> getPackages_from w root paths (AList.update path pkg packages)
      | None \<Rightarrow>
          (case importIfExists w (filepath_Join w root path) of
             Some pkg \<Rightarrow> getPackages_from w root paths (AList.update path pkg packages)
           | None \<Rightarrow>
               (case build_Import w path root of
                  None \<Rightarrow> Inl ImportFailed
                | Some pkg \<Rightarrow>
                    getPackages_from w root paths (AList.update path pkg packages))))"

definition getPackages :: "world \<Rightarrow> string \<Rightarrow> string list \<Rightarrow> error + build_Package gomap" where
  "getPackages w root paths = getPackages_from w root paths []"

subsection \<open>Rebuilding the cache\<close>

text \<open>
  The three loops of \<^verbatim>\<open>rebuildCache\<close> over the freshly imported packages: the dependency
  graph with the reverse index, the two file indices, and the list of main packages.
\<close>

fun appendReverseDeps ::
    "string list gomap \<Rightarrow> string \<Rightarrow> string list \<Rightarrow> string list gomap" where
  "appendReverseDeps rd pkgPath [] = rd"
| "appendReverseDeps rd pkgPath (imp # imps) =
     appendReverseDeps (AList.update imp (at_key rd imp @ [pkgPath]) rd) pkgPath imps"

fun buildGraph ::
    "bool \<Rightarrow> build_Package gomap \<Rightarrow> string list gomap \<times> string list gomap \<Rightarrow>
     string list gomap \<times> string list gomap" where
  "buildGraph ti [] acc = acc"
| "buildGraph ti ((pkgPath, pkg) # rest) (dg, rd) =
     (let dg1 = AList.update pkgPath (Imports pkg) dg;
          rd1 = appendReverseDeps rd pkgPath (Imports pkg);
          rd2 = (if ti
                 then appendReverseDeps (appendReverseDeps rd1 pkgPath (TestImports pkg))
                        pkgPath (XTestImports pkg)
                 else rd1)
      in buildGraph ti rest (dg1, rd2))"

fun mapFiles ::
    "world \<Rightarrow> string \<Rightarrow> string \<Rightarrow> string list \<Rightarrow> string gomap \<times> string list gomap \<Rightarrow>
     string gomap \<times> string list gomap" where
  "mapFiles w pkgPath dir [] acc = acc"
| "mapFiles w pkgPath dir (file # files) (fp, fn) =
     (let absPath = filepath_Join w dir file;
          fileName = filepath_Base w file
      in mapFiles w pkgPath dir files
           (AList.update absPath pkgPath fp,
            AList.update fileName (at_key fn fileName @ [pkgPath]) fn))"

fun buildFileMaps ::
    "world \<Rightarrow> bool \<Rightarrow> build_Package gomap \<Rightarrow> string gomap \<times> string list gomap \<Rightarrow>
     string gomap \<times> string list gomap" where
  "buildFileMaps w ti [] acc = acc"
| "buildFileMaps w ti ((pkgPath, pkg) # rest) acc =
     (let acc1 = mapFiles w pkgPath (Dir pkg) (GoFiles pkg) acc;
          acc2 = (if ti
                  then mapFiles w pkgPath (Dir pkg) (XTestGoFiles pkg)
                         (mapFiles w pkgPath (Dir pkg) (TestGoFiles pkg) acc1)
                  else acc1)
      in buildFileMaps w ti rest acc2)"

definition findMains :: "build_Package gomap \<Rightarrow> string list" where
  "findMains packages = map fst (filter (\<lambda>(pkgPath, pkg). Name pkg = ''main'') packages)"

definition rebuildCache :: "world \<Rightarrow> GoDepFind \<Rightarrow> error option \<times> GoDepFind" where
  "rebuildCache w g =
     (case listPackages w (rootDir g) ''./...'' of
        Inl e \<Rightarrow> (Some (ListPackagesFailed e), g)
      | Inr allPaths \<Rightarrow>
          (case getPackages w (rootDir g) allPaths of
             Inl e \<Rightarrow> (Some (GetPackagesFailed e), g)
           | Inr packages \<Rightarrow>
               (let graph = buildGraph (testImports g) packages ([], []);
                    files = buildFileMaps w (testImports g) packages ([], [])
                in (None,
                    g\<lparr>packageCache := packages,
                      dependencyGraph := fst graph,
                      reverseDeps := snd graph,
                      filePathToPackage := fst files,
                      fileToPackages := snd files,
                      mainPackages := findMains packages,
                      cachedModule := True\<rparr>))))"

definition ensureCacheInitialized :: "world \<Rightarrow> GoDepFind \<Rightarrow> error option \<times> GoDepFind" where
  "ensureCacheInitialized w g = (if \<not> cachedModule g then rebuildCache w g else (None, g))"

subsection \<open>Finding the package of a file\<close>

text \<open>
  \<^verbatim>\<open>findPackageContainingFileByPath\<close> first searches the cached packages, then the
  packages of a fresh listing.  \<open>listsFile\<close> is the inner loop over the file names of one
  package; a candidate whose absolute path cannot be computed is skipped.
\<close>

definition listsFile :: "world \<Rightarrow> string \<Rightarrow> string \<Rightarrow> string list \<Rightarrow> bool" where
  "listsFile w dir absPath files =
     list_ex (\<lambda>file.
        filepath_Abs w (if \<not> filepath_IsAbs w file then filepath_Join w dir file else file)
          = Some absPath) files"

fun searchCachedPackages ::
    "world \<Rightarrow> bool \<Rightarrow> string \<Rightarrow> build_Package gomap \<Rightarrow> string option" where
  "searchCachedPackages w ti absPath [] = None"
| "searchCachedPackages w ti absPath ((pkgPath, pkg) # rest) =
     (if listsFile w (Dir pkg) absPath (GoFiles pkg) then Some pkgPath
      else if ti \<and> listsFile w (Dir pkg) absPath (TestGoFiles pkg) then Some pkgPath
      else if ti \<and> listsFile w (Dir pkg) absPath (XTestGoFiles pkg) then Some pkgPath
      else searchCachedPackages w ti absPath rest)"

fun searchScannedPackages :: "world \<Rightarrow> string \<Rightarrow> build_Package gomap \<Rightarrow> string option" where
  "searchScannedPackages w absPath [] = None"
| "searchScannedPackages w absPath ((path, pkg) # rest) =
     (if listsFile w (Dir pkg) absPath (GoFiles pkg) then Some path
      else searchScannedPackages w absPath rest)"

definition findPackageContainingFileByPath ::
    "world \<Rightarrow> GoDepFind \<Rightarrow> string \<Rightarrow> (error + string) \<times> GoDepFind" where
  "findPackageContainingFileByPath w g filePath =
     (case ensureCacheInitialized w g of
        (Some e, g1) \<Rightarrow> (Inl e, g1)
      | (None, g1) \<Rightarrow>
          (case filepath_Abs w filePath of
             None \<Rightarrow> (Inl CannotResolveAbs, g1)
           | Some absPath \<Rightarrow>
               (case searchCachedPackages w (testImports g1) absPath (packageCache g1) of
                  Some pkgPath \<Rightarrow> (Inr pkgPath, g1)
                | None \<Rightarrow>
                    (case listPackages w (rootDir g1) ''./...'' of
                       Inl e \<Rightarrow> (Inl e, g1)
                     | Inr allPaths \<Rightarrow>
                         (case getPackages w (rootDir g1) allPaths of
                            Inl e \<Rightarrow> (Inl e, g1)
                          | Inr packages \<Rightarrow>
                              (case searchScannedPackages w absPath packages of
                                 Some path \<Rightarrow> (Inr path, g1)
                               | None \<Rightarrow> (Inr [], g1)))))))"

subsection \<open>Helpers on slices and on the reverse index\<close>

text \<open>
  \<^verbatim>\<open>removeString\<close> and \<^verbatim>\<open>removeReverseDep\<close> cut the first occurrence out of a slice in
  place; the slice they cut is referenced from its map entry only.  \<^verbatim>\<open>addReverseDep\<close> first
  creates an empty entry where the key is missing.
\<close>

fun contains :: "string list \<Rightarrow> string \<Rightarrow> bool" where
  "contains [] item = False"
| "contains (s # slice) item = (if s = item then True else contains slice item)"

fun removeString :: "string list \<Rightarrow> string \<Rightarrow> string list" where
  "removeString [] item = []"
| "removeString (s # slice) item = (if s = item then slice else s # removeString slice item)"

definition addReverseDep :: "string list gomap \<Rightarrow> string \<Rightarrow> string \<Rightarrow> string list gomap" where
  "addReverseDep rd target dependent =
     (let rd1 = (if map_of rd target = None then AList.update target [] rd else rd)
      in if contains (at_key rd1 target) dependent then rd1
         else AList.update target (at_key rd1 target @ [dependent]) rd1)"

definition removeReverseDep :: "string list gomap \<Rightarrow> string \<Rightarrow> string \<Rightarrow> string list gomap" where
  "removeReverseDep rd target dependent =
     (let deps = at_key rd target
      in if contains deps dependent
         then AList.update target (removeString deps dependent) rd
         else rd)"

subsection \<open>Invalidation, creation and removal\<close>

text \<open>
  \<open>recordFile\<close> is the part of \<^verbatim>\<open>handleFileCreate\<close> that enters the file into both file
  indices, \<open>forgetFile\<close> the part of \<^verbatim>\<open>handleFileRemove\<close> that takes it out of them; both
  functions end with \<^verbatim>\<open>invalidatePackageCache\<close>, which looks the package up once more.
\<close>

definition invalidatePackageCache :: "world \<Rightarrow> GoDepFind \<Rightarrow> string \<Rightarrow> error option \<times> GoDepFind" where
  "invalidatePackageCache w g filePath =
     (case findPackageContainingFileByPath w g filePath of
        (Inl e, g1) \<Rightarrow> (None, g1)
      | (Inr pkg, g1) \<Rightarrow>
          if pkg = [] then (None, g1)
          else (None, g1\<lparr>packageCache := AList.delete pkg (packageCache g1),
                          dependencyGraph := AList.delete pkg (dependencyGraph g1)\<rparr>))"

definition invalidatePackageCacheOnly ::
    "world \<Rightarrow> GoDepFind \<Rightarrow> string \<Rightarrow> error option \<times> GoDepFind" where
  "invalidatePackageCacheOnly w g filePath =
     (case findPackageContainingFileByPath w g filePath of
        (Inl e, g1) \<Rightarrow> (None, g1)
      | (Inr pkg, g1) \<Rightarrow>
          if pkg = [] then (None, g1)
          else (None, g1\<lparr>packageCache := AList.delete pkg (packageCache g1)\<rparr>))"

definition recordFile :: "world \<Rightarrow> GoDepFind \<Rightarrow> string \<Rightarrow> string \<Rightarrow> GoDepFind" where
  "recordFile w g filePath pkg =
     (let g1 = (case filepath_Abs w filePath of
                  Some absPath \<Rightarrow>
                    g\<lparr>filePathToPackage := AList.update absPath pkg (filePathToPackage g)\<rparr>
                | None \<Rightarrow> g);
          fileName = filepath_Base w filePath
      in if \<not> contains (at_key (fileToPackages g1) fileName) pkg
         then g1\<lparr>fileToPackages :=
                   AList.update fileName (at_key (fileToPackages g1) fileName @ [pkg])
                     (fileToPackages g1)\<rparr>
         else g1)"

definition handleFileCreate :: "world \<Rightarrow> GoDepFind \<Rightarrow> string \<Rightarrow> error option \<times> GoDepFind" where
  "handleFileCreate w g filePath =
     (case findPackageContainingFileByPath w g filePath of
        (Inl e, g1) \<Rightarrow> (Some e, g1)
      | (Inr pkg, g1) \<Rightarrow>
          if pkg \<noteq> [] then invalidatePackageCache w (recordFile w g1 filePath pkg) filePath
          else (None, g1))"

definition forgetFile :: "world \<Rightarrow> GoDepFind \<Rightarrow> string \<Rightarrow> GoDepFind" where
  "forgetFile w g filePath =
     (let g1 = (if filePath \<noteq> [] then
                  (case filepath_Abs w filePath of
                     Some absPath \<Rightarrow>
                       g\<lparr>filePathToPackage := AList.delete absPath (filePathToPackage g)\<rparr>
                   | None \<Rightarrow> g)
                else g)
      in if filePath \<noteq> [] then
           (case findPackageContainingFileByPath w g1 filePath of
              (Inl e, g2) \<Rightarrow> g2
            | (Inr pkg, g2) \<Rightarrow>
                if pkg \<noteq> [] then
                  (let fileName = filepath_Base w filePath
                   in g2\<lparr>fileToPackages :=
                           AList.update fileName
                             (removeString (at_key (fileToPackages g2) fileName) pkg)
                             (fileToPackages g2)\<rparr>)
                else g2)
         else g1)"

definition handleFileRemove :: "world \<Rightarrow> GoDepFind \<Rightarrow> string \<Rightarrow> error option \<times> GoDepFind" where
  "handleFileRemove w g filePath = invalidatePackageCache w (forgetFile w g filePath) filePath"

subsection \<open>Refreshing one package\<close>

text \<open>
  \<open>dropRemovedImports\<close> and \<open>addAddedImports\<close> are the two closing loops of
  \<^verbatim>\<open>refreshPackageCache\<close>; the maps \<^verbatim>\<open>oldMap\<close> and \<^verbatim>\<open>newMap\<close> hold \<^verbatim>\<open>true\<close> exactly at the
  elements of the old and of the new import list.
\<close>

fun dropRemovedImports ::
    "string list gomap \<Rightarrow> string \<Rightarrow> string list \<Rightarrow> string list \<Rightarrow> string list gomap" where
  "dropRemovedImports rd targetPkgPath newImports [] = rd"
| "dropRemovedImports rd targetPkgPath newImports (imp # oldImports) =
     dropRemovedImports
       (if imp \<notin> set newImports then removeReverseDep rd imp targetPkgPath else rd)
       targetPkgPath newImports oldImports"

fun addAddedImports ::
    "string list gomap \<Rightarrow> string \<Rightarrow> string list \<Rightarrow> string list \<Rightarrow> string list gomap" where
  "addAddedImports rd targetPkgPath oldImports [] = rd"
| "addAddedImports rd targetPkgPath oldImports (imp # newImports) =
     addAddedImports
       (if imp \<notin> set oldImports then addReverseDep rd imp targetPkgPath else rd)
       targetPkgPath oldImports newImports"

definition importPackageFromDir :: "world \<Rightarrow> string \<Rightarrow> build_Package option" where
  "importPackageFromDir w dir = build_ImportDir w dir"

definition refreshPackageCache :: "world \<Rightarrow> GoDepFind \<Rightarrow> string \<Rightarrow> error option \<times> GoDepFind" where
  "refreshPackageCache w g filePath =
     (case findPackageContainingFileByPath w g filePath of
        (Inl e, g1) \<Rightarrow> (Some e, g1)
      | (Inr targetPkgPath, g1) \<Rightarrow>
          if targetPkgPath = [] then handleFileCreate w g1 filePath
          else
            (case map_of (packageCache g1) targetPkgPath of
               None \<Rightarrow> handleFileCreate w g1 filePath
             | Some pkg \<Rightarrow>
                 (case importPackageFromDir w (Dir pkg) of
                    None \<Rightarrow> (Some RefreshFailed, g1)
                  | Some newPkg \<Rightarrow>
                      (let oldImports = at_key (dependencyGraph g1) targetPkgPath;
                           newImports =
                             (if testImports g1
                              then Imports newPkg @ TestImports newPkg @ XTestImports newPkg
                              else Imports newPkg);
                           rd1 = dropRemovedImports (reverseDeps g1) targetPkgPath
                                   newImports oldImports;
                           rd2 = addAddedImports rd1 targetPkgPath oldImports newImports
                       in (None,
                           g1\<lparr>packageCache :=
                                 AList.update targetPkgPath newPkg (packageCache g1),
                               dependencyGraph :=
                                 AList.update targetPkgPath newImports (dependencyGraph g1),
                               reverseDeps := rd2\<rparr>)))))"

section \<open>The transitive-dependency query of the cache\<close>

text \<open>
  \<^verbatim>\<open>cachedImports(path, targetPkg, visited)\<close> with the graph \<^verbatim>\<open>g.dependencyGraph\<close> as first
  argument.  The \<^verbatim>\<open>visited\<close> map only ever receives the value \<^verbatim>\<open>true\<close>; it is the list
  of its keys in the order in which they were marked, and the function returns it updated.
  \<open>cachedImports_range\<close> is the \<^verbatim>\<open>for _, dep := range deps\<close> loop of the body.
\<close>

function cachedImports ::
    "string list gomap \<Rightarrow> string \<Rightarrow> string \<Rightarrow> string list \<Rightarrow> bool \<times> string list"
  and cachedImports_range ::
    "string list gomap \<Rightarrow> string list \<Rightarrow> string \<Rightarrow> string list \<Rightarrow> bool \<times> string list"
where
  "cachedImports dg path targetPkg visited =
     (if path \<in> set visited then (False, visited)
      else let visited1 = visited @ [path] in
        if path = targetPkg then (True, visited1)
        else (case map_of dg path of
                None \<Rightarrow> (False, visited1)
              | Some deps \<Rightarrow> cachedImports_range dg deps targetPkg visited1))"
| "cachedImports_range dg [] targetPkg visited = (False, visited)"
| "cachedImports_range dg (dep # deps) targetPkg visited =
     (if dep = targetPkg then (True, visited)
      else (case cachedImports dg dep targetPkg visited of
              (True, visited') \<Rightarrow> (True, visited')
            | (False, visited') \<Rightarrow> cachedImports_range dg deps targetPkg visited'))"
  by pat_completeness auto

lemma cachedImports_dom_visited_mono:
  "cachedImports_cachedImports_range_dom (Inl (dg, path, targetPkg, visited)) \<Longrightarrow>
     set visited \<subseteq> set (snd (cachedImports dg path targetPkg visited))"
  "cachedImports_cachedImports_range_dom (Inr (dg, deps, targetPkg, visited)) \<Longrightarrow>
     set visited \<subseteq> set (snd (cachedImports_range dg deps targetPkg visited))"
proof (induction dg path targetPkg visited and dg deps targetPkg visited
       rule: cachedImports_cachedImports_range.pinduct)
  case (1 dg path targetPkg visited)
  then show ?case
    by (auto simp: cachedImports.psimps Let_def split: option.splits)
next
  case (2 dg targetPkg visited)
  then show ?case
    by (simp add: cachedImports_range.psimps)
next
  case (3 dg dep deps targetPkg visited)
  show ?case
  proof (cases "dep = targetPkg")
    case True
    then show ?thesis
      using "3.hyps" by (simp add: cachedImports_range.psimps)
  next
    case False
    obtain r v where rv: "cachedImports dg dep targetPkg visited = (r, v)"
      by (cases "cachedImports dg dep targetPkg visited")
    have sub: "set visited \<subseteq> set v"
      using "3.IH"(1)[OF False] rv by simp
    show ?thesis
    proof (cases r)
      case True
      then show ?thesis
        using "3.hyps" False rv sub by (simp add: cachedImports_range.psimps)
    next
      case r: False
      have "set v \<subseteq> set (snd (cachedImports_range dg deps targetPkg v))"
        using "3.IH"(2)[OF False rv[symmetric]] r by simp
      then show ?thesis
        using "3.hyps" False rv sub r by (auto simp: cachedImports_range.psimps)
    qed
  qed
qed

definition unvisited :: "string list gomap \<Rightarrow> string list \<Rightarrow> nat" where
  "unvisited dg visited = card (fst ` set dg - set visited)"

lemma unvisited_mono:
  "set visited \<subseteq> set visited' \<Longrightarrow> unvisited dg visited' \<le> unvisited dg visited"
  unfolding unvisited_def by (intro card_mono) auto

lemma unvisited_mark:
  assumes "map_of dg path = Some deps" and "path \<notin> set visited"
  shows "unvisited dg (visited @ [path]) < unvisited dg visited"
proof -
  have k: "path \<in> fst ` set dg"
    using assms(1) by (metis map_of_SomeD fst_conv image_eqI)
  have "fst ` set dg - set (visited @ [path]) \<subset> fst ` set dg - set visited"
    using k assms(2) by auto
  then show ?thesis
    unfolding unvisited_def by (intro psubset_card_mono) auto
qed

lemma unvisited_after_call:
  assumes "cachedImports_cachedImports_range_dom (Inl (dg, dep, targetPkg, visited))"
    and "(r, visited') = cachedImports dg dep targetPkg visited"
  shows "unvisited dg visited' \<le> unvisited dg visited"
proof -
  have "snd (cachedImports dg dep targetPkg visited) = visited'"
    using assms(2) by (metis snd_conv)
  then have "set visited \<subseteq> set visited'"
    using cachedImports_dom_visited_mono(1)[OF assms(1)] by simp
  then show ?thesis
    by (rule unvisited_mono)
qed

definition cachedImports_rank ::
    "string list gomap \<times> string \<times> string \<times> string list +
     string list gomap \<times> string list \<times> string \<times> string list \<Rightarrow> nat \<times> nat" where
  "cachedImports_rank x =
     (case x of
        Inl (dg, path, targetPkg, visited) \<Rightarrow> (unvisited dg visited, 0)
      | Inr (dg, deps, targetPkg, visited) \<Rightarrow> (unvisited dg visited, Suc (length deps)))"

lemma cachedImports_all_dom: "All cachedImports_cachedImports_range_dom"
  apply (relation "inv_image (less_than <*lex*> less_than) cachedImports_rank")
  subgoal by (intro wf_inv_image wf_lex_prod wf_less_than)
  subgoal by (simp add: cachedImports_rank_def unvisited_mark)
  subgoal by (simp add: cachedImports_rank_def)
  subgoal by (auto simp: cachedImports_rank_def dest!: unvisited_after_call)
  done

termination cachedImports
  by (rule cachedImports_all_dom)

declare cachedImports.simps(1) [simp del]

definition cachedMainImportsPackage :: "GoDepFind \<Rightarrow> string \<Rightarrow> string \<Rightarrow> bool" where
  "cachedMainImportsPackage g mainPath targetPkg =
     fst (cachedImports (dependencyGraph g) mainPath targetPkg [])"

section \<open>Applying a file event to the cache\<close>

text \<open>
  \<open>renameFile\<close> is the branch of the \<^verbatim>\<open>switch\<close> for a rename: removal, then creation.
\<close>

definition isSameFile :: "world \<Rightarrow> GoDepFind \<Rightarrow> string \<Rightarrow> string \<Rightarrow> bool" where
  "isSameFile w g filePath1 filePath2 =
     (case (filepath_Abs w filePath1, filepath_Abs w filePath2) of
        (Some abs1, Some abs2) \<Rightarrow>
          (let abs2' = (if \<not> filepath_IsAbs w filePath2 then
                          (case filepath_Abs w (filepath_Join w (rootDir g) filePath2) of
                             Some abs2FromRoot \<Rightarrow> abs2FromRoot
                           | None \<Rightarrow> abs2)
                        else abs2);
               abs1' = (if \<not> filepath_IsAbs w filePath1 then
                          (case filepath_Abs w (filepath_Join w (rootDir g) filePath1) of
                             Some abs1FromRoot \<Rightarrow> abs1FromRoot
                           | None \<Rightarrow> abs1)
                        else abs1)
           in abs1' = abs2')
      | _ \<Rightarrow> filePath1 = filePath2)"

definition rescanMainPackageDependencies ::
    "world \<Rightarrow> GoDepFind \<Rightarrow> string \<Rightarrow> error option \<times> GoDepFind" where
  "rescanMainPackageDependencies w g mainInputFileRelativePath = rebuildCache w g"

definition renameFile :: "world \<Rightarrow> GoDepFind \<Rightarrow> string \<Rightarrow> error option \<times> GoDepFind" where
  "renameFile w g filePath =
     (case handleFileRemove w g filePath of
        (Some e, g1) \<Rightarrow> (Some e, g1)
      | (None, g1) \<Rightarrow> handleFileCreate w g1 filePath)"

definition updateCacheForFileWithContext ::
    "world \<Rightarrow> GoDepFind \<Rightarrow> string \<Rightarrow> string \<Rightarrow> string \<Rightarrow> error option \<times> GoDepFind" where
  "updateCacheForFileWithContext w g filePath event handlerMainFile =
     (case ensureCacheInitialized w g of
        (Some e, g1) \<Rightarrow> (Some e, g1)
      | (None, g1) \<Rightarrow>
          if event = ''write'' then
            (if handlerMainFile \<noteq> [] \<and> isSameFile w g1 filePath handlerMainFile
             then rescanMainPackageDependencies w g1 filePath
             else refreshPackageCache w g1 filePath)
          else if event = ''create'' then handleFileCreate w g1 filePath
          else if event = ''remove'' then handleFileRemove w g1 filePath
          else if event = ''rename'' then renameFile w g1 filePath
          else (None, g1))"

definition updateCacheForFile ::
    "world \<Rightarrow> GoDepFind \<Rightarrow> string \<Rightarrow> string \<Rightarrow> error option \<times> GoDepFind" where
  "updateCacheForFile w g filePath event =
     (case ensureCacheInitialized w g of
        (Some e, g1) \<Rightarrow> (Some e, g1)
      | (None, g1) \<Rightarrow>
          if event = ''write'' then refreshPackageCache w g1 filePath
          else if event = ''create'' then handleFileCreate w g1 filePath
          else if event = ''remove'' then handleFileRemove w g1 filePath
          else if event = ''rename'' then renameFile w g1 filePath
          else (None, g1))"

subsection \<open>The second copy of the cache file\<close>

text \<open>
  The sources hold a second copy of the cache file.  It has no \<^verbatim>\<open>refreshPackageCache\<close>;
  its \<^verbatim>\<open>invalidatePackageCache\<close> also deletes the package's own reverse entry and takes
  the package out of the other packages' dependency lists (first occurrence), and a write
  to a file other than the handler's main file only drops the package from the package
  cache.  Its remaining functions are those above, word for word.  The in-place
  \<^verbatim>\<open>append(deps[:i], deps[i+1:]...)\<close> shares its array with the \<^verbatim>\<open>Imports\<close> field of the
  cached package, which this copy never reads again.
\<close>

definition invalidatePackageCache2 ::
    "world \<Rightarrow> GoDepFind \<Rightarrow> string \<Rightarrow> error option \<times> GoDepFind" where
  "invalidatePackageCache2 w g filePath =
     (case findPackageContainingFileByPath w g filePath of
        (Inl e, g1) \<Rightarrow> (None, g1)
      | (Inr pkg, g1) \<Rightarrow>
          if pkg = [] then (None, g1)
          else (None,
                g1\<lparr>packageCache := AList.delete pkg (packageCache g1),
                    dependencyGraph :=
                      map (\<lambda>(otherPkg, deps). (otherPkg, removeString deps pkg))
                        (AList.delete pkg (dependencyGraph g1)),
                    reverseDeps := AList.delete pkg (reverseDeps g1)\<rparr>))"

definition handleFileCreate2 :: "world \<Rightarrow> GoDepFind \<Rightarrow> string \<Rightarrow> error option \<times> GoDepFind" where
  "handleFileCreate2 w g filePath =
     (case findPackageContainingFileByPath w g filePath of
        (Inl e, g1) \<Rightarrow> (Some e, g1)
      | (Inr pkg, g1) \<Rightarrow>
          if pkg \<noteq> [] then invalidatePackageCache2 w (recordFile w g1 filePath pkg) filePath
          else (None, g1))"

definition handleFileRemove2 :: "world \<Rightarrow> GoDepFind \<Rightarrow> string \<Rightarrow> error option \<times> GoDepFind" where
  "handleFileRemove2 w g filePath = invalidatePackageCache2 w (forgetFile w g filePath) filePath"

definition updateCacheForFileWithContext2 ::
    "world \<Rightarrow> GoDepFind \<Rightarrow> string \<Rightarrow> string \<Rightarrow> string \<Rightarrow> error option \<times> GoDepFind" where
  "updateCacheForFileWithContext2 w g filePath event handlerMainFile =
     (case ensureCacheInitialized w g of
        (Some e, g1) \<Rightarrow> (Some e, g1)
      | (None, g1) \<Rightarrow>
          if event = ''write'' then
            (if handlerMainFile \<noteq> [] \<and> isSameFile w g1 filePath handlerMainFile
             then rescanMainPackageDependencies w g1 filePath
             else invalidatePackageCacheOnly w g1 filePath)
          else if event = ''create'' then handleFileCreate2 w g1 filePath
          else if event = ''remove'' then handleFileRemove2 w g1 filePath
          else if event = ''rename'' then
            (case handleFileRemove2 w g1 filePath of
               (Some e, g2) \<Rightarrow> (Some e, g2)
             | (None, g2) \<Rightarrow> handleFileCreate2 w g2 filePath)
          else (None, g1))"

section \<open>Validating a changed file\<close>

text \<open>
  \<^verbatim>\<open>IsValidGoFile\<close> of the validator: any failure of \<^verbatim>\<open>os.Stat\<close> is an error, an empty file
  and a file without the extension \<^verbatim>\<open>.go\<close> are invalid, and a parse error counts as invalid
  when its text contains one of three phrases and as an error otherwise.
\<close>

definition hasValidGoSyntax :: "world \<Rightarrow> string \<Rightarrow> error + bool" where
  "hasValidGoSyntax w filePath =
     (case parser_ParseFile w filePath of
        None \<Rightarrow> Inr True
      | Some msg \<Rightarrow>
          if Contains msg ''expected''
             \<or> Contains msg (''found '' @ [CHR 0x27] @ ''EOF'' @ [CHR 0x27])
             \<or> Contains msg ''unexpected''
          then Inr False
          else Inl (ParserFailed msg))"

definition IsValidGoFile :: "world \<Rightarrow> string \<Rightarrow> error + bool" where
  "IsValidGoFile w filePath =
     (case os_Stat w filePath of
        StatOk n \<Rightarrow>
          if n = 0 then Inr False
          else if filepath_Ext w filePath \<noteq> ''.go'' then Inr False
          else hasValidGoSyntax w filePath
      | _ \<Rightarrow> Inl StatFailed)"

section \<open>Ownership\<close>

text \<open>
  The functions of the ownership query, up to \<^verbatim>\<open>ThisFileIsMine\<close>.  \<open>parseLines\<close> is the
  loop of \<^verbatim>\<open>parseFileImports\<close> over the lines of the file, \<open>sameDirectoryMain\<close> the loop of
  \<^verbatim>\<open>doesPackageBelongToHandler\<close> over the main packages, which answers at the first entry
  equal to the target.
\<close>

definition isMainPackage :: "GoDepFind \<Rightarrow> string \<Rightarrow> bool" where
  "isMainPackage g pkgPath = list_ex (\<lambda>mp. mp = pkgPath) (mainPackages g)"

definition extractImportPath :: "string \<Rightarrow> string" where
  "extractImportPath line =
     (let line1 = (case Index line ''//'' of Some idx \<Rightarrow> take idx line | None \<Rightarrow> line);
          line2 = TrimSpace line1
      in if line2 = [] then []
         else
           (let line3 = TrimSpace (TrimPrefix line2 ''import '')
            in case Index line3 [CHR 0x22] of
                 None \<Rightarrow> []
               | Some start \<Rightarrow>
                   (case LastIndex line3 [CHR 0x22] of
                      None \<Rightarrow> []
                    | Some end \<Rightarrow>
                        if end \<le> start then []
                        else take (end - (start + 1)) (drop (start + 1) line3))))"

fun parseLines :: "string list \<Rightarrow> bool \<Rightarrow> string list \<Rightarrow> string list" where
  "parseLines [] inImportBlock imports = imports"
| "parseLines (l # lines) inImportBlock imports =
     (let line = TrimSpace l in
      if line = ''import ('' then parseLines lines True imports
      else if inImportBlock \<and> line = '')'' then parseLines lines False imports
      else if inImportBlock then
        (let path = extractImportPath line
         in parseLines lines inImportBlock (if path \<noteq> [] then imports @ [path] else imports))
      else if HasPrefix line ''import '' then
        (let path = extractImportPath line
         in parseLines lines inImportBlock (if path \<noteq> [] then imports @ [path] else imports))
      else parseLines lines inImportBlock imports)"

definition parseFileImports :: "world \<Rightarrow> string \<Rightarrow> string list option" where
  "parseFileImports w filePath =
     (case os_ReadFile w filePath of
        None \<Rightarrow> None
      | Some content \<Rightarrow> Some (parseLines (Split content CHR 0x0A) False []))"

definition handlerFileImportsPackage ::
    "world \<Rightarrow> GoDepFind \<Rightarrow> string \<Rightarrow> string \<Rightarrow> bool \<times> GoDepFind" where
  "handlerFileImportsPackage w g handlerFileRelativePath targetPkg =
     (case ensureCacheInitialized w g of
        (Some e, g1) \<Rightarrow> (False, g1)
      | (None, g1) \<Rightarrow>
          (let handlerAbsPath =
                 (if \<not> filepath_IsAbs w handlerFileRelativePath
                  then filepath_Join w (rootDir g1) handlerFileRelativePath
                  else handlerFileRelativePath)
           in case parseFileImports w handlerAbsPath of
                None \<Rightarrow> (False, g1)
              | Some imports \<Rightarrow>
                  if list_ex (\<lambda>imp. imp = targetPkg) imports then (True, g1)
                  else if list_ex (\<lambda>imp. cachedMainImportsPackage g1 imp targetPkg) imports
                  then (True, g1)
                  else (False, g1)))"

fun sameDirectoryMain ::
    "world \<Rightarrow> GoDepFind \<Rightarrow> string \<Rightarrow> string \<Rightarrow> string list \<Rightarrow> bool option" where
  "sameDirectoryMain w g targetPkg handlerDir [] = None"
| "sameDirectoryMain w g targetPkg handlerDir (mainPkg # rest) =
     (if mainPkg = targetPkg then
        (case map_of (packageCache g) mainPkg of
           Some pkg \<Rightarrow>
             (case filepath_Rel w (rootDir g) (Dir pkg) of
                Some relPkgDir \<Rightarrow>
                  Some (filepath_Clean w relPkgDir = filepath_Clean w handlerDir)
              | None \<Rightarrow> Some (filepath_Base w targetPkg = filepath_Base w handlerDir))
         | None \<Rightarrow> Some (filepath_Base w targetPkg = filepath_Base w handlerDir))
      else sameDirectoryMain w g targetPkg handlerDir rest)"

definition doesPackageBelongToHandler ::
    "world \<Rightarrow> GoDepFind \<Rightarrow> string \<Rightarrow> string \<Rightarrow> bool \<times> GoDepFind" where
  "doesPackageBelongToHandler w g targetPkg mainInputFileRelativePath =
     (let handlerDir = filepath_Dir w mainInputFileRelativePath
      in case (if isMainPackage g targetPkg
               then sameDirectoryMain w g targetPkg handlerDir (mainPackages g)
               else None) of
           Some r \<Rightarrow> (r, g)
         | None \<Rightarrow> handlerFileImportsPackage w g mainInputFileRelativePath targetPkg)"

definition findPackageForFile ::
    "world \<Rightarrow> GoDepFind \<Rightarrow> string \<Rightarrow> (error + string) \<times> GoDepFind" where
  "findPackageForFile w g fileAbsPath =
     (case ensureCacheInitialized w g of
        (Some e, g1) \<Rightarrow> (Inl e, g1)
      | (None, g1) \<Rightarrow>
          (case map_of (filePathToPackage g1) fileAbsPath of
             Some pkg \<Rightarrow> (Inr pkg, g1)
           | None \<Rightarrow>
               (case (case os_Getwd w of
                        None \<Rightarrow> None
                      | Some cwd \<Rightarrow>
                          (case filepath_Rel w cwd fileAbsPath of
                             None \<Rightarrow> None
                           | Some relPath \<Rightarrow> map_of (filePathToPackage g1) relPath)) of
                  Some pkg \<Rightarrow> (Inr pkg, g1)
                | None \<Rightarrow>
                    (case at_key (fileToPackages g1) (filepath_Base w fileAbsPath) of
                       pkg # packages \<Rightarrow> (Inr pkg, g1)
                     | [] \<Rightarrow> (Inr [], g1)))))"

definition checkPackageBasedOwnership ::
    "world \<Rightarrow> GoDepFind \<Rightarrow> string \<Rightarrow> string \<Rightarrow> (bool \<times> error option) \<times> GoDepFind" where
  "checkPackageBasedOwnership w g mainInputFileRelativePath fileAbsPath =
     (case findPackageForFile w g fileAbsPath of
        (Inl e, g1) \<Rightarrow> ((False, Some e), g1)
      | (Inr targetPkg, g1) \<Rightarrow>
          if targetPkg = [] then ((False, None), g1)
          else (case doesPackageBelongToHandler w g1 targetPkg mainInputFileRelativePath of
                  (r, g2) \<Rightarrow> ((r, None), g2)))"

definition ThisFileIsMine ::
    "world \<Rightarrow> GoDepFind \<Rightarrow> string \<Rightarrow> string \<Rightarrow> string \<Rightarrow> (bool \<times> error option) \<times> GoDepFind"
where
  "ThisFileIsMine w g mainInputFileRelativePath fileAbsPath event =
     (if fileAbsPath = [] then ((False, Some EmptyFileAbsPath), g)
      else if mainInputFileRelativePath = [] then ((False, Some EmptyHandlerPath), g)
      else
        (case filepath_Abs w (if \<not> filepath_IsAbs w fileAbsPath
                              then filepath_Join w (rootDir g) fileAbsPath
                              else fileAbsPath) of
           None \<Rightarrow> ((False, Some CannotResolveAbs), g)
         | Some absFilePath \<Rightarrow>
             (case os_Stat w (if \<not> filepath_IsAbs w mainInputFileRelativePath
                              then filepath_Join w (rootDir g) mainInputFileRelativePath
                              else mainInputFileRelativePath) of
                StatNotExist \<Rightarrow> ((False, Some HandlerMainMissing), g)
              | StatError \<Rightarrow> ((False, Some HandlerMainInaccessible), g)
              | StatOk n \<Rightarrow>
                  (case (if filepath_Ext w absFilePath = ''.go''
                         then IsValidGoFile w absFilePath
                         else Inr True) of
                     Inl e \<Rightarrow> ((False, Some (FileValidationFailed e)), g)
                   | Inr False \<Rightarrow> ((False, None), g)
                   | Inr True \<Rightarrow>
                       if TrimPrefix absFilePath (rootDir g @ ''/'') = mainInputFileRelativePath
                       then
                         (case updateCacheForFileWithContext w g absFilePath event
                                 mainInputFileRelativePath of
                            (Some e, g1) \<Rightarrow> ((False, Some (CacheUpdateFailed e)), g1)
                          | (None, g1) \<Rightarrow> ((True, None), g1))
                       else checkPackageBasedOwnership w g mainInputFileRelativePath
                              absFilePath))))"

section \<open>Vocabulary of the statements\<close>

text \<open>
  \<open>declares dg a b\<close>: the dependency graph lists \<open>b\<close> among the dependencies of \<open>a\<close>.
  \<open>settled dg t v v'\<close>: every package marked between \<open>v\<close> and \<open>v'\<close> differs from \<open>t\<close> and
  has all its dependencies marked in \<open>v'\<close>.
\<close>

definition declares :: "string list gomap \<Rightarrow> string \<Rightarrow> string \<Rightarrow> bool" where
  "declares dg a b = (b \<in> set (at_key dg a))"

definition settled :: "string list gomap \<Rightarrow> string \<Rightarrow> string list \<Rightarrow> string list \<Rightarrow> bool" where
  "settled dg targetPkg visited visited' =
     (\<forall>x \<in> set visited' - set visited. x \<noteq> targetPkg \<and> set (at_key dg x) \<subseteq> set visited')"

text \<open>
  \<open>inputsOk\<close>: the first three steps of \<^verbatim>\<open>ThisFileIsMine\<close> pass (both paths are non-empty,
  the changed path resolves to the absolute path \<open>absFilePath\<close>, the handler's main file
  exists).  \<open>fileOk\<close>: the changed file passes the validity check of step 4.  \<open>isOwnMain\<close>:
  the comparison of step 5 identifies the changed file with the handler's main file.

  The same two conditions read off the inputs and the environment rather than off the code.
  \<open>completeGoFile\<close>: a changed file with the extension \<^verbatim>\<open>.go\<close> exists, is not empty and
  parses.  \<open>ownMainBelowRoot\<close>: the absolute path of the changed file is, character by
  character, the root directory, a slash and the handler's path; the handler's path is
  relative, and joined to the root it resolves to that absolute path.
\<close>

definition inputsOk :: "world \<Rightarrow> GoDepFind \<Rightarrow> string \<Rightarrow> string \<Rightarrow> string \<Rightarrow> bool" where
  "inputsOk w g mainInputFileRelativePath fileAbsPath absFilePath =
     (fileAbsPath \<noteq> [] \<and> mainInputFileRelativePath \<noteq> []
      \<and> filepath_Abs w (if \<not> filepath_IsAbs w fileAbsPath
                         then filepath_Join w (rootDir g) fileAbsPath
                         else fileAbsPath) = Some absFilePath
      \<and> (case os_Stat w (if \<not> filepath_IsAbs w mainInputFileRelativePath
                          then filepath_Join w (rootDir g) mainInputFileRelativePath
                          else mainInputFileRelativePath) of
            StatOk n \<Rightarrow> True
          | _ \<Rightarrow> False))"

definition fileOk :: "world \<Rightarrow> string \<Rightarrow> bool" where
  "fileOk w absFilePath =
     (if filepath_Ext w absFilePath = ''.go'' then IsValidGoFile w absFilePath = Inr True
      else True)"

definition isOwnMain :: "GoDepFind \<Rightarrow> string \<Rightarrow> string \<Rightarrow> bool" where
  "isOwnMain g mainInputFileRelativePath absFilePath =
     (TrimPrefix absFilePath (rootDir g @ ''/'') = mainInputFileRelativePath)"



text \<open>
  \<open>rebuilt w g packages\<close>: the finder after \<^verbatim>\<open>rebuildCache\<close> has imported \<open>packages\<close>: every
  cache field is computed from \<open>packages\<close> alone; only the root directory and the test-import
  switch are kept.
\<close>

definition rebuilt :: "world \<Rightarrow> GoDepFind \<Rightarrow> build_Package gomap \<Rightarrow> GoDepFind" where
  "rebuilt w g packages =
     g\<lparr>packageCache := packages,
       dependencyGraph := fst (buildGraph (testImports g) packages ([], [])),
       reverseDeps := snd (buildGraph (testImports g) packages ([], [])),
       filePathToPackage := fst (buildFileMaps w (testImports g) packages ([], [])),
       fileToPackages := snd (buildFileMaps w (testImports g) packages ([], [])),
       mainPackages := findMains packages,
       cachedModule := True\<rparr>"

text \<open>
  \<open>pullsIn g imports u\<close>: package \<open>u\<close> is one of \<open>imports\<close> or is reached from one of them
  along declared dependencies, that is, \<open>imports\<close> pull in \<open>u\<close> directly or transitively.
\<close>

definition pullsIn :: "GoDepFind \<Rightarrow> string list \<Rightarrow> string \<Rightarrow> bool" where
  "pullsIn g imports u = (\<exists>imp \<in> set imports. (declares (dependencyGraph g))\<^sup>*\<^sup>* imp u)"

text \<open>
  \<open>transposed g\<close>: the reverse index of \<open>g\<close> is the transpose of its dependency graph.
  \<open>singleEntries g\<close>: no reverse list names a package twice.
\<close>

definition transposed :: "GoDepFind \<Rightarrow> bool" where
  "transposed g =
     (\<forall>P Q. (P \<in> set (at_key (reverseDeps g) Q)) = (Q \<in> set (at_key (dependencyGraph g) P)))"

definition singleEntries :: "GoDepFind \<Rightarrow> bool" where
  "singleEntries g = (\<forall>Q. distinct (at_key (reverseDeps g) Q))"

section \<open>A sample project\<close>

text \<open>
  A module \<^verbatim>\<open>t\<close> rooted at \<^verbatim>\<open>/r\<close>.  The directory \<^verbatim>\<open>app\<close> holds two main files separated
  by build tags: \<^verbatim>\<open>server.go\<close> imports \<^verbatim>\<open>t/db\<close> and \<^verbatim>\<open>wasm.go\<close> imports \<^verbatim>\<open>t/dom\<close>; the
  default build context selects \<^verbatim>\<open>server.go\<close>.  Package \<^verbatim>\<open>t/db\<close> imports \<^verbatim>\<open>t/util\<close>.
  The path functions are those of \<^verbatim>\<open>path/filepath\<close> on Unix for paths that are already
  clean (no empty, \<^verbatim>\<open>.\<close> or \<^verbatim>\<open>..\<close> component, no trailing slash), which is all the sample
  uses; \<open>unix_Rel\<close> gives \<open>None\<close> where the target is not below the base, where Go would
  answer with a path through \<^verbatim>\<open>..\<close> that no index holds.
\<close>

definition unix_IsAbs :: "string \<Rightarrow> bool" where
  "unix_IsAbs p = HasPrefix p ''/''"

definition unix_Join :: "string \<Rightarrow> string \<Rightarrow> string" where
  "unix_Join a b = (if a = [] then b else if b = [] then a else a @ ''/'' @ b)"

definition unix_Abs :: "string \<Rightarrow> string \<Rightarrow> string option" where
  "unix_Abs cwd p = Some (if unix_IsAbs p then p else unix_Join cwd p)"

definition unix_Rel :: "string \<Rightarrow> string \<Rightarrow> string option" where
  "unix_Rel base targ =
     (if targ = base then Some ''.''
      else if HasPrefix targ (base @ ''/'') then Some (drop (Suc (length base)) targ)
      else None)"

definition unix_Base :: "string \<Rightarrow> string" where
  "unix_Base p =
     (if p = [] then ''.''
      else (let b = rev (takeWhile (\<lambda>c. c \<noteq> CHR ''/'') (rev p))
            in if b = [] then ''/'' else b))"

definition unix_Dir :: "string \<Rightarrow> string" where
  "unix_Dir p =
     (let d = rev (dropWhile (\<lambda>c. c \<noteq> CHR ''/'') (rev p))
      in if d = [] then ''.'' else if d = ''/'' then ''/'' else butlast d)"

definition unix_Ext :: "string \<Rightarrow> string" where
  "unix_Ext p =
     (let b = takeWhile (\<lambda>c. c \<noteq> CHR ''/'') (rev p)
      in if CHR ''.'' \<in> set b then rev (takeWhile (\<lambda>c. c \<noteq> CHR ''.'') b @ ''.'') else [])"

definition site_files :: "(string \<times> string) list" where
  "site_files =
     [(''/r/app/server.go'',
       ''package main'' @ [CHR 0x0A] @ ''import '' @ [CHR 0x22] @ ''t/db'' @ [CHR 0x22, CHR 0x0A]
         @ ''func main() {}'' @ [CHR 0x0A]),
      (''/r/app/wasm.go'',
       ''package main'' @ [CHR 0x0A] @ ''import ('' @ [CHR 0x0A, CHR 0x09, CHR 0x22] @ ''t/dom''
         @ [CHR 0x22, CHR 0x0A] @ '')'' @ [CHR 0x0A] @ ''func main() {}'' @ [CHR 0x0A]),
      (''/r/db/db.go'',
       ''package db'' @ [CHR 0x0A] @ ''import '' @ [CHR 0x22] @ ''t/util'' @ [CHR 0x22, CHR 0x0A]),
      (''/r/dom/dom.go'', ''package dom'' @ [CHR 0x0A]),
      (''/r/util/util.go'', ''package util'' @ [CHR 0x0A])]"

definition site_dirs :: "string list" where
  "site_dirs = [''/r'', ''/r/app'', ''/r/db'', ''/r/dom'', ''/r/util'']"

definition site_packages :: "(string \<times> build_Package) list" where
  "site_packages =
     [(''/r/app'', \<lparr>Name = ''main'', Dir = ''/r/app'', Imports = [''t/db''], TestImports = [],
         XTestImports = [], GoFiles = [''server.go''], TestGoFiles = [], XTestGoFiles = []\<rparr>),
      (''/r/db'', \<lparr>Name = ''db'', Dir = ''/r/db'', Imports = [''t/util''], TestImports = [],
         XTestImports = [], GoFiles = [''db.go''], TestGoFiles = [], XTestGoFiles = []\<rparr>),
      (''/r/dom'', \<lparr>Name = ''dom'', Dir = ''/r/dom'', Imports = [], TestImports = [],
         XTestImports = [], GoFiles = [''dom.go''], TestGoFiles = [], XTestGoFiles = []\<rparr>),
      (''/r/util'', \<lparr>Name = ''util'', Dir = ''/r/util'', Imports = [], TestImports = [],
         XTestImports = [], GoFiles = [''util.go''], TestGoFiles = [], XTestGoFiles = []\<rparr>)]"

definition site :: world where
  "site =
     \<lparr>filepath_IsAbs = unix_IsAbs, filepath_Join = unix_Join, filepath_Abs = unix_Abs ''/r'',
      filepath_Rel = unix_Rel, filepath_Clean = (\<lambda>p. p), filepath_Base = unix_Base,
      filepath_Dir = unix_Dir, filepath_Ext = unix_Ext,
      os_Getwd = Some ''/r'',
      os_Stat = (\<lambda>p. case map_of site_files p of
                         Some content \<Rightarrow> StatOk (length content)
                       | None \<Rightarrow> if p \<in> set site_dirs then StatOk 4096 else StatNotExist),
      os_ReadFile = map_of site_files,
      parser_ParseFile = (\<lambda>p. None),
      go_list = (\<lambda>dir pattern. if dir = ''/r'' \<and> pattern = ''./...''
                    then ([''t/app'', ''t/db'', ''t/dom'', ''t/util''], False) else ([], True)),
      build_ImportDir = map_of site_packages,
      build_Import = (\<lambda>path srcDir. None)\<rparr>"

definition site_cache :: GoDepFind where
  "site_cache =
     \<lparr>rootDir = ''/r'', testImports = False, cachedModule = True,
      packageCache =
        [(''t/app'', \<lparr>Name = ''main'', Dir = ''/r/app'', Imports = [''t/db''], TestImports = [],
            XTestImports = [], GoFiles = [''server.go''], TestGoFiles = [], XTestGoFiles = []\<rparr>),
         (''t/db'', \<lparr>Name = ''db'', Dir = ''/r/db'', Imports = [''t/util''], TestImports = [],
            XTestImports = [], GoFiles = [''db.go''], TestGoFiles = [], XTestGoFiles = []\<rparr>),
         (''t/dom'', \<lparr>Name = ''dom'', Dir = ''/r/dom'', Imports = [], TestImports = [],
            XTestImports = [], GoFiles = [''dom.go''], TestGoFiles = [], XTestGoFiles = []\<rparr>),
         (''t/util'', \<lparr>Name = ''util'', Dir = ''/r/util'', Imports = [], TestImports = [],
            XTestImports = [], GoFiles = [''util.go''], TestGoFiles = [], XTestGoFiles = []\<rparr>)],
      dependencyGraph =
        [(''t/app'', [''t/db'']), (''t/db'', [''t/util'']), (''t/dom'', []), (''t/util'', [])],
      reverseDeps = [(''t/db'', [''t/app'']), (''t/util'', [''t/db''])],
      filePathToPackage =
        [(''/r/app/server.go'', ''t/app''), (''/r/db/db.go'', ''t/db''),
         (''/r/dom/dom.go'', ''t/dom''), (''/r/util/util.go'', ''t/util'')],
      fileToPackages =
        [(''server.go'', [''t/app'']), (''db.go'', [''t/db'']),
         (''dom.go'', [''t/dom'']), (''util.go'', [''t/util''])],
      mainPackages = [''t/app'']\<rparr>"

definition cyclic_graph :: "string list gomap" where
  "cyclic_graph = [(''a'', [''b'']), (''b'', [''c'']), (''c'', [''a''])]"

definition shared_name_cache :: GoDepFind where
  "shared_name_cache = site_cache\<lparr>fileToPackages := [(''db.go'', [''t/db'', ''t/alt''])]\<rparr>"

text \<open>
  Two variants of the sample: one in which \<^verbatim>\<open>server.go\<close> is in the middle of being written
  and does not parse, one in which \<^verbatim>\<open>go list\<close> fails and prints nothing.
\<close>

definition site_midwrite :: world where
  "site_midwrite =
     site\<lparr>parser_ParseFile :=
            (\<lambda>p. if p = ''/r/app/server.go''
                 then Some ''/r/app/server.go:2:1: expected declaration, found imp''
                 else None)\<rparr>"





text \<open>
  The sample after \<^verbatim>\<open>db/db.go\<close> has been deleted from the disk.
\<close>

definition site_db_removed :: world where
  "site_db_removed =
     site\<lparr>os_Stat := (\<lambda>p. if p = ''/r/db/db.go'' then StatNotExist else os_Stat site p),
          os_ReadFile := (\<lambda>p. if p = ''/r/db/db.go'' then None else os_ReadFile site p),
          go_list := (\<lambda>dir pattern. if dir = ''/r'' \<and> pattern = ''./...''
                        then ([''t/app'', ''t/dom'', ''t/util''], False) else ([], True)),
          build_ImportDir := (\<lambda>dir. if dir = ''/r/db'' then None else build_ImportDir site dir)\<rparr>"

text \<open>
  The sample with \<^verbatim>\<open>db.go\<close> in the middle of being written, cut inside the string literal of
  its import: the parser reports an unterminated literal.
\<close>

definition site_cut :: world where
  "site_cut =
     site\<lparr>os_ReadFile :=
            (\<lambda>p. if p = ''/r/db/db.go''
                 then Some (''package db'' @ [CHR 0x0A] @ ''import '' @ [CHR 0x22] @ ''t/ut'')
                 else os_ReadFile site p),
          os_Stat := (\<lambda>p. if p = ''/r/db/db.go'' then StatOk 23 else os_Stat site p),
          parser_ParseFile :=
            (\<lambda>p. if p = ''/r/db/db.go''
                 then Some ''/r/db/db.go:2:8: string literal not terminated''
                 else None)\<rparr>"




text \<open>
  The sample as a finder with the empty root sees it, \<^verbatim>\<open>New("")\<close>, in a process whose working
  directory is \<^verbatim>\<open>/r\<close>.  The root is \<^verbatim>\<open>.\<close>; the file system resolves a relative path against
  \<^verbatim>\<open>/r\<close> (\<open>from_cwd\<close>); \<^verbatim>\<open>filepath.Join\<close> cleans its result, so joining to \<^verbatim>\<open>.\<close> gives the
  second path; \<^verbatim>\<open>filepath.Rel\<close> from \<^verbatim>\<open>.\<close> gives a relative target as it is and fails on an
  absolute one; \<^verbatim>\<open>go list\<close> runs in \<^verbatim>\<open>.\<close>; and \<^verbatim>\<open>build.ImportDir\<close>, called with a relative
  directory, reports that directory as the \<^verbatim>\<open>Dir\<close> of the package.
\<close>

definition from_cwd :: "string \<Rightarrow> string" where
  "from_cwd p = (if unix_IsAbs p then p else unix_Join ''/r'' p)"

definition cwd_Join :: "string \<Rightarrow> string \<Rightarrow> string" where
  "cwd_Join a b = (if a = ''.'' then b else unix_Join a b)"

definition cwd_Rel :: "string \<Rightarrow> string \<Rightarrow> string option" where
  "cwd_Rel base targ =
     (if base = ''.'' then (if unix_IsAbs targ then None else Some targ)
      else unix_Rel base targ)"

definition local_packages :: "(string \<times> build_Package) list" where
  "local_packages =
     map (\<lambda>(dir, pkg). (drop (length ''/r/'') dir, pkg\<lparr>Dir := drop (length ''/r/'') dir\<rparr>))
       site_packages"

definition site_local :: world where
  "site_local =
     site\<lparr>filepath_Join := cwd_Join, filepath_Rel := cwd_Rel,
          os_Stat := (\<lambda>p. os_Stat site (from_cwd p)),
          os_ReadFile := (\<lambda>p. os_ReadFile site (from_cwd p)),
          go_list := (\<lambda>dir pattern. if dir = ''.'' \<and> pattern = ''./...''
                        then ([''t/app'', ''t/db'', ''t/dom'', ''t/util''], False)
                        else ([], True)),
          build_ImportDir := map_of local_packages\<rparr>"

text \<open>
  Two earlier states of a project: \<open>without_import w\<close> is \<open>w\<close> before \<^verbatim>\<open>server.go\<close> was edited
  to import \<^verbatim>\<open>t/db\<close> (the main file and the package \<^verbatim>\<open>t/app\<close> have no import), and
  \<open>without_db w\<close> is \<open>w\<close> before the directory \<^verbatim>\<open>db\<close> was created.  \<open>site_local_cache\<close> and
  \<open>site_start_cache\<close> are the caches that the first query leaves behind in the earliest
  state, \<open>without_db (without_import w)\<close>, for the root \<^verbatim>\<open>.\<close> and for the root \<^verbatim>\<open>/r\<close>.
\<close>

definition without_import :: "world \<Rightarrow> world" where
  "without_import w =
     w\<lparr>os_ReadFile :=
         (\<lambda>p. if from_cwd p = ''/r/app/server.go''
              then Some (''package main'' @ [CHR 0x0A] @ ''func main() {}'' @ [CHR 0x0A])
              else os_ReadFile w p),
       build_ImportDir :=
         (\<lambda>dir. if from_cwd dir = ''/r/app''
                then map_option (\<lambda>pkg. pkg\<lparr>Imports := []\<rparr>) (build_ImportDir w dir)
                else build_ImportDir w dir)\<rparr>"

definition without_db :: "world \<Rightarrow> world" where
  "without_db w =
     w\<lparr>os_Stat :=
         (\<lambda>p. if from_cwd p = ''/r/db'' \<or> from_cwd p = ''/r/db/db.go'' then StatNotExist
              else os_Stat w p),
       os_ReadFile := (\<lambda>p. if from_cwd p = ''/r/db/db.go'' then None else os_ReadFile w p),
       go_list :=
         (\<lambda>dir pattern. case go_list w dir pattern of
            (paths, failed) \<Rightarrow> (filter (\<lambda>path. path \<noteq> ''t/db'') paths, failed)),
       build_ImportDir :=
         (\<lambda>dir. if from_cwd dir = ''/r/db'' then None else build_ImportDir w dir)\<rparr>"

definition site_local_cache :: GoDepFind where
  "site_local_cache =
     \<lparr>rootDir = ''.'', testImports = False, cachedModule = True,
      packageCache =
        [(''t/app'', \<lparr>Name = ''main'', Dir = ''app'', Imports = [], TestImports = [],
            XTestImports = [], GoFiles = [''server.go''], TestGoFiles = [], XTestGoFiles = []\<rparr>),
         (''t/dom'', \<lparr>Name = ''dom'', Dir = ''dom'', Imports = [], TestImports = [],
            XTestImports = [], GoFiles = [''dom.go''], TestGoFiles = [], XTestGoFiles = []\<rparr>),
         (''t/util'', \<lparr>Name = ''util'', Dir = ''util'', Imports = [], TestImports = [],
            XTestImports = [], GoFiles = [''util.go''], TestGoFiles = [], XTestGoFiles = []\<rparr>)],
      dependencyGraph = [(''t/app'', []), (''t/dom'', []), (''t/util'', [])],
      reverseDeps = [],
      filePathToPackage =
        [(''app/server.go'', ''t/app''), (''dom/dom.go'', ''t/dom''),
         (''util/util.go'', ''t/util'')],
      fileToPackages =
        [(''server.go'', [''t/app'']), (''dom.go'', [''t/dom'']), (''util.go'', [''t/util''])],
      mainPackages = [''t/app'']\<rparr>"

definition site_start_cache :: GoDepFind where
  "site_start_cache =
     \<lparr>rootDir = ''/r'', testImports = False, cachedModule = True,
      packageCache =
        [(''t/dom'', \<lparr>Name = ''dom'', Dir = ''/r/dom'', Imports = [], TestImports = [],
            XTestImports = [], GoFiles = [''dom.go''], TestGoFiles = [], XTestGoFiles = []\<rparr>),
         (''t/util'', \<lparr>Name = ''util'', Dir = ''/r/util'', Imports = [], TestImports = [],
            XTestImports = [], GoFiles = [''util.go''], TestGoFiles = [], XTestGoFiles = []\<rparr>)],
      dependencyGraph = [(''t/dom'', []), (''t/util'', [])],
      reverseDeps = [],
      filePathToPackage =
        [(''/r/app/server.go'', ''t/app''), (''/r/dom/dom.go'', ''t/dom''),
         (''/r/util/util.go'', ''t/util'')],
      fileToPackages =
        [(''server.go'', [''t/app'']), (''dom.go'', [''t/dom'']), (''util.go'', [''t/util''])],
      mainPackages = [''t/app'']\<rparr>"
section \<open>Correctness of the transitive query\<close>

lemma cachedImports_sound:
  "fst (cachedImports dg path targetPkg visited) \<Longrightarrow> (declares dg)\<^sup>*\<^sup>* path targetPkg"
  "fst (cachedImports_range dg deps targetPkg visited) \<Longrightarrow>
     \<exists>dep \<in> set deps. (declares dg)\<^sup>*\<^sup>* dep targetPkg"
proof (induction dg path targetPkg visited and dg deps targetPkg visited
       rule: cachedImports_cachedImports_range.induct)
  case (1 dg path targetPkg visited)
  show ?case
  proof (cases "path \<in> set visited \<or> path = targetPkg")
    case True
    then show ?thesis using "1.prems" by (auto simp: cachedImports.simps(1) Let_def)
  next
    case False
    then obtain deps where d: "map_of dg path = Some deps"
      using "1.prems" by (auto simp: cachedImports.simps(1) Let_def split: option.splits)
    then have "fst (cachedImports_range dg deps targetPkg (visited @ [path]))"
      using "1.prems" False by (simp add: cachedImports.simps(1) Let_def)
    then obtain dep where "dep \<in> set deps" "(declares dg)\<^sup>*\<^sup>* dep targetPkg"
      using "1.IH"[OF _ refl _ d] False by blast
    moreover have "declares dg path dep"
      using d \<open>dep \<in> set deps\<close> by (simp add: declares_def at_key_def)
    ultimately show ?thesis
      by (meson converse_rtranclp_into_rtranclp)
  qed
next
  case (2 dg targetPkg visited)
  then show ?case by simp
next
  case (3 dg dep deps targetPkg visited)
  show ?case
  proof (cases "dep = targetPkg")
    case True
    then show ?thesis by auto
  next
    case False
    obtain r v where rv: "cachedImports dg dep targetPkg visited = (r, v)"
      by (cases "cachedImports dg dep targetPkg visited")
    show ?thesis
    proof (cases r)
      case True
      then have "(declares dg)\<^sup>*\<^sup>* dep targetPkg"
        using "3.IH"(1)[OF False] rv by simp
      then show ?thesis by auto
    next
      case r: False
      then have "fst (cachedImports_range dg deps targetPkg v)"
        using "3.prems" False rv by simp
      then show ?thesis
        using "3.IH"(2)[OF False rv[symmetric]] r by auto
    qed
  qed
qed

lemma settled_refl: "settled dg t v v"
  by (simp add: settled_def)

lemma settled_trans:
  "settled dg t v1 v2 \<Longrightarrow> settled dg t v2 v3 \<Longrightarrow> set v2 \<subseteq> set v3 \<Longrightarrow> settled dg t v1 v3"
  unfolding settled_def by blast

lemma cachedImports_visits:
  "cachedImports dg path targetPkg visited = (r, visited') \<Longrightarrow>
     set visited \<subseteq> set visited' \<and>
     (\<not> r \<longrightarrow> path \<in> set visited' \<and> settled dg targetPkg visited visited')"
  "cachedImports_range dg deps targetPkg visited = (r, visited') \<Longrightarrow>
     set visited \<subseteq> set visited' \<and>
     (\<not> r \<longrightarrow> set deps \<subseteq> set visited' \<and> settled dg targetPkg visited visited')"
proof (induction dg path targetPkg visited and dg deps targetPkg visited
       arbitrary: r visited' and r visited'
       rule: cachedImports_cachedImports_range.induct)
  case (1 dg path targetPkg visited)
  show ?case
  proof (cases "path \<in> set visited")
    case True
    then show ?thesis using "1.prems" by (auto simp: cachedImports.simps(1) settled_refl)
  next
    case nv: False
    show ?thesis
    proof (cases "path = targetPkg")
      case True
      then show ?thesis using "1.prems" nv by (auto simp: cachedImports.simps(1) Let_def)
    next
      case nt: False
      show ?thesis
      proof (cases "map_of dg path")
        case None
        then have "visited' = visited @ [path]" "\<not> r"
          using "1.prems" nv nt by (auto simp: cachedImports.simps(1) Let_def)
        moreover have "at_key dg path = []"
          using None by (simp add: at_key_def)
        ultimately show ?thesis
          using nt by (auto simp: settled_def)
      next
        case (Some deps)
        then have call: "cachedImports_range dg deps targetPkg (visited @ [path]) = (r, visited')"
          using "1.prems" nv nt by (simp add: cachedImports.simps(1) Let_def)
        have ih: "set (visited @ [path]) \<subseteq> set visited' \<and>
           (\<not> r \<longrightarrow> set deps \<subseteq> set visited' \<and> settled dg targetPkg (visited @ [path]) visited')"
          using "1.IH"[OF nv refl nt Some call] .
        have ak: "at_key dg path = deps"
          using Some by (simp add: at_key_def)
        show ?thesis
          using ih nt ak unfolding settled_def by auto
      qed
    qed
  qed
next
  case (2 dg targetPkg visited)
  then show ?case by (auto simp: settled_refl)
next
  case (3 dg dep deps targetPkg visited)
  show ?case
  proof (cases "dep = targetPkg")
    case True
    then show ?thesis using "3.prems" by auto
  next
    case nt: False
    obtain r1 v1 where rv: "cachedImports dg dep targetPkg visited = (r1, v1)"
      by (cases "cachedImports dg dep targetPkg visited")
    have ih1: "set visited \<subseteq> set v1 \<and>
       (\<not> r1 \<longrightarrow> dep \<in> set v1 \<and> settled dg targetPkg visited v1)"
      using "3.IH"(1)[OF nt rv] .
    show ?thesis
    proof (cases r1)
      case True
      then show ?thesis using "3.prems" nt rv ih1 by auto
    next
      case r1: False
      then have call: "cachedImports_range dg deps targetPkg v1 = (r, visited')"
        using "3.prems" nt rv by simp
      have ih2: "set v1 \<subseteq> set visited' \<and>
         (\<not> r \<longrightarrow> set deps \<subseteq> set visited' \<and> settled dg targetPkg v1 visited')"
        using "3.IH"(2)[OF nt rv[symmetric] _ call] r1 by simp
      show ?thesis
        using ih1 ih2 r1 settled_trans[of dg targetPkg visited v1 visited'] by auto
    qed
  qed
qed

lemma settled_closed:
  assumes "settled dg t [] v" and "p \<in> set v" and "(declares dg)\<^sup>*\<^sup>* p q"
  shows "q \<in> set v"
  using assms(3,2)
proof (induction rule: rtranclp_induct)
  case base
  then show ?case .
next
  case (step y z)
  then have "y \<in> set v" by simp
  then have "set (at_key dg y) \<subseteq> set v"
    using assms(1) by (simp add: settled_def)
  then show ?case
    using step.hyps(2) by (auto simp: declares_def)
qed

lemma cachedImports_complete:
  assumes "(declares dg)\<^sup>*\<^sup>* path targetPkg"
  shows "fst (cachedImports dg path targetPkg [])"
proof (rule ccontr)
  assume "\<not> fst (cachedImports dg path targetPkg [])"
  then obtain v where v: "cachedImports dg path targetPkg [] = (False, v)"
    by (cases "cachedImports dg path targetPkg []") auto
  from cachedImports_visits(1)[OF v]
  have "path \<in> set v" "settled dg targetPkg [] v" by auto
  then have "targetPkg \<in> set v"
    using settled_closed assms by blast
  then show False
    using \<open>settled dg targetPkg [] v\<close> by (auto simp: settled_def)
qed

lemma cachedImports_reach:
  "fst (cachedImports dg path targetPkg []) = (declares dg)\<^sup>*\<^sup>* path targetPkg"
  using cachedImports_sound(1) cachedImports_complete by blast

lemma cachedImports_distinct:
  "distinct visited \<Longrightarrow> distinct (snd (cachedImports dg path targetPkg visited))"
  "distinct visited \<Longrightarrow> distinct (snd (cachedImports_range dg deps targetPkg visited))"
proof (induction dg path targetPkg visited and dg deps targetPkg visited
       rule: cachedImports_cachedImports_range.induct)
  case (1 dg path targetPkg visited)
  then show ?case
    by (auto simp: cachedImports.simps(1) Let_def split: option.splits)
next
  case (2 dg targetPkg visited)
  then show ?case by simp
next
  case (3 dg dep deps targetPkg visited)
  show ?case
  proof (cases "dep = targetPkg")
    case True
    then show ?thesis using "3.prems" by simp
  next
    case nt: False
    obtain r1 v1 where rv: "cachedImports dg dep targetPkg visited = (r1, v1)"
      by (cases "cachedImports dg dep targetPkg visited")
    have d1: "distinct v1"
      using "3.IH"(1)[OF nt "3.prems"] rv by simp
    show ?thesis
    proof (cases r1)
      case True
      then show ?thesis using nt rv d1 by simp
    next
      case r1: False
      have "distinct (snd (cachedImports_range dg deps targetPkg v1))"
        using "3.IH"(2)[OF nt rv[symmetric] _ d1] r1 by simp
      then show ?thesis using nt rv r1 by simp
    qed
  qed
qed

section \<open>The steps of the ownership query\<close>

lemma ThisFileIsMine_invalid:
  assumes "inputsOk w g h f a" and "filepath_Ext w a = ''.go''"
    and "IsValidGoFile w a = Inr False"
  shows "ThisFileIsMine w g h f event = ((False, None), g)"
proof -
  obtain n where "os_Stat w (if \<not> filepath_IsAbs w h then filepath_Join w (rootDir g) h else h)
      = StatOk n"
    using assms(1) by (auto simp: inputsOk_def split: stat_result.splits split del: if_split)
  then show ?thesis
    using assms by (simp add: ThisFileIsMine_def inputsOk_def split del: if_split)
qed

lemma IsValidGoFile_incomplete:
  assumes "os_Stat w a = StatOk n" and "filepath_Ext w a = ''.go''"
    and "n = 0 \<or> (\<exists>msg. parser_ParseFile w a = Some msg
                     \<and> (Contains msg ''expected'' \<or> Contains msg ''unexpected''
                          \<or> Contains msg (''found '' @ [CHR 0x27] @ ''EOF'' @ [CHR 0x27])))"
  shows "IsValidGoFile w a = Inr False"
  using assms by (auto simp: IsValidGoFile_def hasValidGoSyntax_def)

lemma ThisFileIsMine_incomplete:
  assumes "inputsOk w g h f a" and "os_Stat w a = StatOk n" and "filepath_Ext w a = ''.go''"
    and "n = 0 \<or> (\<exists>msg. parser_ParseFile w a = Some msg
                     \<and> (Contains msg ''expected'' \<or> Contains msg ''unexpected''
                          \<or> Contains msg (''found '' @ [CHR 0x27] @ ''EOF'' @ [CHR 0x27])))"
  shows "ThisFileIsMine w g h f event = ((False, None), g)"
  using ThisFileIsMine_invalid[OF assms(1,3) IsValidGoFile_incomplete[OF assms(2,3,4)]] .

lemma ThisFileIsMine_own:
  assumes "inputsOk w g h f a" and "fileOk w a" and "isOwnMain g h a"
  shows "ThisFileIsMine w g h f event =
     (case updateCacheForFileWithContext w g a event h of
        (Some e, g1) \<Rightarrow> ((False, Some (CacheUpdateFailed e)), g1)
      | (None, g1) \<Rightarrow> ((True, None), g1))"
proof -
  obtain n where "os_Stat w (if \<not> filepath_IsAbs w h then filepath_Join w (rootDir g) h else h)
      = StatOk n"
    using assms(1) by (auto simp: inputsOk_def split: stat_result.splits split del: if_split)
  moreover have "(if filepath_Ext w a = ''.go'' then IsValidGoFile w a else Inr True) = Inr True"
    using assms(2) by (simp add: fileOk_def split: if_splits)
  ultimately show ?thesis
    using assms(1,3) by (simp add: ThisFileIsMine_def inputsOk_def isOwnMain_def split del: if_split)
qed

lemma ThisFileIsMine_other:
  assumes "inputsOk w g h f a" and "fileOk w a" and "\<not> isOwnMain g h a"
  shows "ThisFileIsMine w g h f event = checkPackageBasedOwnership w g h a"
proof -
  obtain n where "os_Stat w (if \<not> filepath_IsAbs w h then filepath_Join w (rootDir g) h else h)
      = StatOk n"
    using assms(1) by (auto simp: inputsOk_def split: stat_result.splits split del: if_split)
  moreover have "(if filepath_Ext w a = ''.go'' then IsValidGoFile w a else Inr True) = Inr True"
    using assms(2) by (simp add: fileOk_def split: if_splits)
  ultimately show ?thesis
    using assms(1,3) by (simp add: ThisFileIsMine_def inputsOk_def isOwnMain_def split del: if_split)
qed

lemma ensure_cached: "cachedModule g \<Longrightarrow> ensureCacheInitialized w g = (None, g)"
  by (simp add: ensureCacheInitialized_def)

lemma site_rebuild: "rebuildCache site (New ''/r'') = (None, site_cache)"
  by code_simp

lemma handlerFileImportsPackage_cached:
  "cachedModule g \<Longrightarrow> snd (handlerFileImportsPackage w g h t) = g"
  by (simp add: handlerFileImportsPackage_def ensure_cached Let_def split: option.splits
           split del: if_split) (simp split: if_splits)

lemma doesPackageBelongToHandler_cached:
  "cachedModule g \<Longrightarrow> snd (doesPackageBelongToHandler w g t h) = g"
  by (simp add: doesPackageBelongToHandler_def handlerFileImportsPackage_cached Let_def
           split: option.splits)

lemma findPackageForFile_cached:
  "cachedModule g \<Longrightarrow> \<exists>pkg. findPackageForFile w g a = (Inr pkg, g)"
  by (simp add: findPackageForFile_def ensure_cached split: option.splits list.splits)

lemma checkPackageBasedOwnership_cached:
  assumes "cachedModule g"
  shows "\<exists>r. checkPackageBasedOwnership w g h a = ((r, None), g)"
proof -
  obtain pkg where p: "findPackageForFile w g a = (Inr pkg, g)"
    using findPackageForFile_cached[OF assms] by blast
  obtain r g2 where d: "doesPackageBelongToHandler w g pkg h = (r, g2)"
    by (cases "doesPackageBelongToHandler w g pkg h")
  then have "g2 = g"
    using doesPackageBelongToHandler_cached[OF assms, of w pkg h] by simp
  then show ?thesis
    using p d by (auto simp: checkPackageBasedOwnership_def)
qed

lemma update_unrecognized:
  assumes "event \<notin> {''write'', ''create'', ''remove'', ''rename''}"
  shows "updateCacheForFileWithContext w g filePath event handlerMainFile
           = ensureCacheInitialized w g"
proof -
  have ne: "event \<noteq> ''write''" "event \<noteq> ''create''" "event \<noteq> ''remove''"
    "event \<noteq> ''rename''"
    using assms by auto
  obtain e g1 where eg: "ensureCacheInitialized w g = (e, g1)"
    by (cases "ensureCacheInitialized w g")
  show ?thesis
    unfolding updateCacheForFileWithContext_def eg using ne
    by (cases e) simp_all
qed

lemma ThisFileIsMine_keeps_state_early:
  assumes "\<not> (inputsOk w g h f a \<and> fileOk w a)"
    and "filepath_Abs w (if \<not> filepath_IsAbs w f then filepath_Join w (rootDir g) f else f)
           = Some a"
  shows "snd (ThisFileIsMine w g h f event) = g"
proof (cases "inputsOk w g h f a")
  case True
  then have nf: "\<not> fileOk w a" using assms(1) by simp
  obtain n where st:
    "os_Stat w (if \<not> filepath_IsAbs w h then filepath_Join w (rootDir g) h else h) = StatOk n"
    using True by (auto simp: inputsOk_def split: stat_result.splits split del: if_split)
  have ext: "filepath_Ext w a = ''.go''" and nv: "IsValidGoFile w a \<noteq> Inr True"
    using nf by (auto simp: fileOk_def split: if_splits)
  show ?thesis
  proof (cases "IsValidGoFile w a")
    case (Inl e)
    then show ?thesis
      using True st ext by (simp add: ThisFileIsMine_def inputsOk_def split del: if_split)
  next
    case (Inr b)
    then have "\<not> b" using nv by auto
    then show ?thesis
      using True st ext Inr by (simp add: ThisFileIsMine_def inputsOk_def split del: if_split)
  qed
next
  case False
  show ?thesis
  proof (cases "f = [] \<or> h = []")
    case True
    then show ?thesis
      by (cases "f = []") (simp_all add: ThisFileIsMine_def split del: if_split)
  next
    case ne: False
    then have "\<not> (case os_Stat w (if \<not> filepath_IsAbs w h
                                    then filepath_Join w (rootDir g) h else h) of
                   StatOk n \<Rightarrow> True | _ \<Rightarrow> False)"
      using False assms(2) by (simp add: inputsOk_def split del: if_split)
    then show ?thesis
      using ne assms(2)
      by (cases "os_Stat w (if \<not> filepath_IsAbs w h then filepath_Join w (rootDir g) h
                           else h)")
         (simp_all add: ThisFileIsMine_def split del: if_split)
  qed
qed

lemma site_inputs_db:
  "inputsOk site site_cache ''app/server.go'' ''/r/db/db.go'' ''/r/db/db.go''"
  by (simp add: inputsOk_def site_def site_cache_def unix_IsAbs_def unix_Abs_def unix_Join_def
        site_files_def)

lemma site_db_ok: "fileOk site ''/r/db/db.go''"
  by (simp add: fileOk_def IsValidGoFile_def hasValidGoSyntax_def site_def unix_Ext_def
        site_files_def)

lemma findPackageForFile_fallback:
  assumes "ensureCacheInitialized w g = (None, g1)"
    and "map_of (filePathToPackage g1) fileAbsPath = None"
    and "\<forall>cwd relPath. os_Getwd w = Some cwd \<and> filepath_Rel w cwd fileAbsPath = Some relPath
           \<longrightarrow> map_of (filePathToPackage g1) relPath = None"
  shows "findPackageForFile w g fileAbsPath =
           (Inr (case at_key (fileToPackages g1) (filepath_Base w fileAbsPath) of
                   [] \<Rightarrow> []
                 | pkg # packages \<Rightarrow> pkg), g1)"
proof -
  have "(case os_Getwd w of
           None \<Rightarrow> None
         | Some cwd \<Rightarrow>
             (case filepath_Rel w cwd fileAbsPath of
                None \<Rightarrow> None
              | Some relPath \<Rightarrow> map_of (filePathToPackage g1) relPath)) = None"
    using assms(3) by (auto split: option.splits)
  then show ?thesis
    using assms(1,2) by (simp add: findPackageForFile_def split: list.splits)
qed

lemma rebuildCache_rebuilt:
  assumes "listPackages w (rootDir g) ''./...'' = Inr allPaths"
    and "getPackages w (rootDir g) allPaths = Inr packages"
  shows "rebuildCache w g = (None, rebuilt w g packages)"
  using assms by (simp add: rebuildCache_def rebuilt_def Let_def)

lemma rebuilt_fixed [simp]:
  "rootDir (rebuilt w g packages) = rootDir g"
  "testImports (rebuilt w g packages) = testImports g"
  "cachedModule (rebuilt w g packages)"
  by (simp_all add: rebuilt_def)

lemma rebuilt_again [simp]: "rebuilt w (rebuilt w g p) p' = rebuilt w g p'"
  by (simp add: rebuilt_def)


lemma ensure_rebuilt:
  assumes "listPackages w (rootDir g) ''./...'' = Inr allPaths"
    and "getPackages w (rootDir g) allPaths = Inr packages"
  shows "ensureCacheInitialized w g = (None, if cachedModule g then g else rebuilt w g packages)"
  using rebuildCache_rebuilt[OF assms] by (simp add: ensureCacheInitialized_def)



lemma site_server_ok: "fileOk site ''/r/app/server.go''"
  by (simp add: fileOk_def IsValidGoFile_def hasValidGoSyntax_def site_def unix_Ext_def
        site_files_def)

lemma site_list: "listPackages site ''/r'' ''./...'' = Inr [''t/app'', ''t/db'', ''t/dom'', ''t/util'']"
  by (simp add: listPackages_def site_def)

lemma site_get:
  "getPackages site ''/r'' [''t/app'', ''t/db'', ''t/dom'', ''t/util'']
     = Inr (packageCache site_cache)"
  by code_simp

lemma site_rebuilt: "rebuilt site (New ''/r'') (packageCache site_cache) = site_cache"
  by code_simp

section \<open>Ownership of a library file\<close>

lemma list_ex_set: "list_ex P xs = (\<exists>x \<in> set xs. P x)"
  by (simp add: list_ex_iff)

lemma handlerFileImportsPackage_pullsIn:
  assumes "cachedModule g"
    and "parseFileImports w (if \<not> filepath_IsAbs w h then filepath_Join w (rootDir g) h else h)
           = Some imports"
  shows "handlerFileImportsPackage w g h u = (pullsIn g imports u, g)"
proof -
  have "(list_ex (\<lambda>imp. imp = u) imports
          \<or> list_ex (\<lambda>imp. cachedMainImportsPackage g imp u) imports) = pullsIn g imports u"
    unfolding list_ex_set pullsIn_def cachedMainImportsPackage_def cachedImports_reach
    by auto
  moreover have "handlerFileImportsPackage w g h u =
      (if list_ex (\<lambda>imp. imp = u) imports then (True, g)
       else if list_ex (\<lambda>imp. cachedMainImportsPackage g imp u) imports then (True, g)
       else (False, g))"
    using assms
    by (simp add: handlerFileImportsPackage_def ensure_cached Let_def split del: if_split)
  ultimately show ?thesis
    by (cases "list_ex (\<lambda>imp. imp = u) imports";
        cases "list_ex (\<lambda>imp. cachedMainImportsPackage g imp u) imports") simp_all
qed

lemma sameDirectoryMain_None:
  "u \<notin> set mains \<Longrightarrow> sameDirectoryMain w g u d mains = None"
  by (induction mains) auto

lemma doesPackageBelongToHandler_library:
  assumes "u \<notin> set (mainPackages g)"
  shows "doesPackageBelongToHandler w g u h = handlerFileImportsPackage w g h u"
  using assms
  by (simp add: doesPackageBelongToHandler_def isMainPackage_def list_ex_set Let_def)

lemma checkPackageBasedOwnership_library:
  assumes "cachedModule g"
    and "map_of (filePathToPackage g) a = Some u" and "u \<noteq> []"
    and "u \<notin> set (mainPackages g)"
    and "parseFileImports w (if \<not> filepath_IsAbs w h then filepath_Join w (rootDir g) h else h)
           = Some imports"
  shows "checkPackageBasedOwnership w g h a = ((pullsIn g imports u, None), g)"
proof -
  have "findPackageForFile w g a = (Inr u, g)"
    using assms(1,2) by (simp add: findPackageForFile_def ensure_cached)
  then show ?thesis
    using assms(3) doesPackageBelongToHandler_library[OF assms(4)]
      handlerFileImportsPackage_pullsIn[OF assms(1,5)]
    by (simp add: checkPackageBasedOwnership_def)
qed

lemma pullsIn_cachedMain:
  "pullsIn g imports u = list_ex (\<lambda>imp. cachedMainImportsPackage g imp u) imports"
  by (simp add: pullsIn_def list_ex_set cachedMainImportsPackage_def cachedImports_reach)

lemma reach_from_leaf:
  assumes "(declares dg)\<^sup>*\<^sup>* a p" and "at_key dg a = []"
  shows "p = a"
  using assms by (induction rule: converse_rtranclp_induct) (auto simp: declares_def)

lemma site_server_imports: "parseFileImports site ''/r/app/server.go'' = Some [''t/db'']"
  by code_simp

lemma site_wasm_imports: "parseFileImports site ''/r/app/wasm.go'' = Some [''t/dom'']"
  by code_simp

lemma site_subtrees_disjoint:
  "\<not> (pullsIn site_cache [''t/db''] p \<and> pullsIn site_cache [''t/dom''] p)"
proof
  assume a: "pullsIn site_cache [''t/db''] p \<and> pullsIn site_cache [''t/dom''] p"
  have "at_key (dependencyGraph site_cache) ''t/dom'' = []"
    by (simp add: site_cache_def at_key_def)
  then have "p = ''t/dom''"
    using a reach_from_leaf[of "dependencyGraph site_cache" "''t/dom''" p]
    by (simp add: pullsIn_def)
  moreover have "\<not> pullsIn site_cache [''t/db''] ''t/dom''"
    unfolding pullsIn_cachedMain by code_simp
  ultimately show False
    using a by simp
qed

section \<open>Refreshing the edges of one package\<close>

lemma contains_set: "contains xs x = (x \<in> set xs)"
  by (induction xs) auto

lemma removeString_remove1: "removeString xs x = remove1 x xs"
  by (induction xs) auto

lemma at_key_update: "at_key (AList.update k v m) k' = (if k' = k then v else at_key m k')"
  by (simp add: at_key_def update_conv')


lemma at_key_removeReverseDep:
  "at_key (removeReverseDep rd t d) k = (if k = t then remove1 d (at_key rd t) else at_key rd k)"
  by (simp add: removeReverseDep_def Let_def contains_set removeString_remove1 at_key_update
        remove1_idem)

lemma at_key_addReverseDep:
  "at_key (addReverseDep rd t d) k =
     (if k = t then (if d \<in> set (at_key rd t) then at_key rd t else at_key rd t @ [d])
      else at_key rd k)"
  by (auto simp: addReverseDep_def Let_def contains_set at_key_update)
     (auto simp: at_key_def)

lemma count_list_remove1:
  "count_list (remove1 d xs) q = (if q = d then count_list xs d - 1 else count_list xs q)"
  by (induction xs) auto

lemma dropRemovedImports_same:
  "k \<notin> set oldImports \<or> k \<in> set newImports \<Longrightarrow>
     at_key (dropRemovedImports rd P newImports oldImports) k = at_key rd k"
  by (induction oldImports arbitrary: rd) (auto simp: at_key_removeReverseDep)

lemma dropRemovedImports_others:
  "Q \<noteq> P \<Longrightarrow>
     count_list (at_key (dropRemovedImports rd P newImports oldImports) k) Q
       = count_list (at_key rd k) Q"
  by (induction oldImports arbitrary: rd)
     (auto simp: at_key_removeReverseDep count_list_remove1)

lemma dropRemovedImports_count:
  "k \<notin> set newImports \<Longrightarrow>
     count_list (at_key (dropRemovedImports rd P newImports oldImports) k) P
       = count_list (at_key rd k) P - count_list oldImports k"
  by (induction oldImports arbitrary: rd)
     (auto simp: at_key_removeReverseDep count_list_remove1)

lemma addAddedImports_same:
  "k \<notin> set newImports \<or> k \<in> set oldImports \<Longrightarrow>
     at_key (addAddedImports rd P oldImports newImports) k = at_key rd k"
  by (induction newImports arbitrary: rd) (auto simp: at_key_addReverseDep)

lemma addAddedImports_others:
  "Q \<noteq> P \<Longrightarrow>
     count_list (at_key (addAddedImports rd P oldImports newImports) k) Q
       = count_list (at_key rd k) Q"
  by (induction newImports arbitrary: rd) (auto simp: at_key_addReverseDep)

lemma addAddedImports_keeps:
  "P \<in> set (at_key rd k) \<Longrightarrow> P \<in> set (at_key (addAddedImports rd P oldImports newImports) k)"
  by (induction newImports arbitrary: rd) (auto simp: at_key_addReverseDep)

lemma addAddedImports_adds:
  "k \<in> set newImports \<Longrightarrow> k \<notin> set oldImports \<Longrightarrow>
     P \<in> set (at_key (addAddedImports rd P oldImports newImports) k)"
proof (induction newImports arbitrary: rd)
  case Nil
  then show ?case by simp
next
  case (Cons imp newImports)
  show ?case
  proof (cases "imp = k")
    case True
    have "P \<in> set (at_key (addReverseDep rd k P) k)"
      by (simp add: at_key_addReverseDep)
    then show ?thesis
      using True Cons.prems addAddedImports_keeps by simp
  next
    case False
    then show ?thesis
      using Cons by auto
  qed
qed



lemma findPackage_in_cache:
  assumes "cachedModule g" and "filepath_Abs w filePath = Some absPath"
    and "searchCachedPackages w (testImports g) absPath (packageCache g) = Some P"
  shows "findPackageContainingFileByPath w g filePath = (Inr P, g)"
  using assms by (simp add: findPackageContainingFileByPath_def ensure_cached)

lemma refreshPackageCache_cached:
  assumes "cachedModule g" and "filepath_Abs w filePath = Some absPath"
    and "searchCachedPackages w (testImports g) absPath (packageCache g) = Some P"
    and "P \<noteq> []" and "map_of (packageCache g) P = Some pkg"
    and "build_ImportDir w (Dir pkg) = Some newPkg"
  shows "refreshPackageCache w g filePath =
     (let oldImports = at_key (dependencyGraph g) P;
          newImports = (if testImports g
                        then Imports newPkg @ TestImports newPkg @ XTestImports newPkg
                        else Imports newPkg)
      in (None,
          g\<lparr>packageCache := AList.update P newPkg (packageCache g),
            dependencyGraph := AList.update P newImports (dependencyGraph g),
            reverseDeps :=
              addAddedImports
                (dropRemovedImports (reverseDeps g) P newImports oldImports)
                P oldImports newImports\<rparr>))"
  using assms findPackage_in_cache[OF assms(1,2,3)]
  by (simp add: refreshPackageCache_def importPackageFromDir_def Let_def)




section \<open>A write to the handler's own main file\<close>












section \<open>The reverse index as transpose of the graph\<close>

text \<open>
  Populating the cache without test imports makes the reverse index the transpose of the
  graph, and a refresh of one package keeps it so.  The events that run
  \<^verbatim>\<open>invalidatePackageCache\<close> do not.
\<close>

lemma at_key_Nil [simp]: "at_key [] k = []"
  by (simp add: at_key_def)

lemma appendReverseDeps_at:
  "at_key (appendReverseDeps rd p imps) Q = at_key rd Q @ replicate (count_list imps Q) p"
proof (induction imps arbitrary: rd)
  case Nil
  then show ?case by simp
next
  case (Cons imp imps)
  show ?case
    by (simp add: Cons.IH at_key_update replicate_app_Cons_same)
qed

lemma buildGraph_reverse:
  "at_key (snd (buildGraph False packages (dg0, rd0))) Q =
     at_key rd0 Q @ concat (map (\<lambda>(p, pkg). replicate (count_list (Imports pkg) Q) p) packages)"
proof (induction packages arbitrary: dg0 rd0)
  case Nil
  then show ?case by simp
next
  case (Cons a packages)
  obtain p pkg where a: "a = (p, pkg)" by (cases a)
  show ?case
    by (simp add: a Cons.IH appendReverseDeps_at)
qed

lemma buildGraph_forward:
  "distinct (map fst packages) \<Longrightarrow>
     at_key (fst (buildGraph ti packages (dg0, rd0))) P =
       (case map_of packages P of Some pkg \<Rightarrow> Imports pkg | None \<Rightarrow> at_key dg0 P)"
proof (induction packages arbitrary: dg0 rd0)
  case Nil
  then show ?case by simp
next
  case (Cons a packages)
  obtain p pkg where a: "a = (p, pkg)" by (cases a)
  have np: "map_of packages p = None"
    using Cons.prems a by (simp add: map_of_eq_None_iff)
  show ?case
    using Cons.prems np by (auto simp: a Cons.IH Let_def at_key_update split: option.splits)
qed

lemma in_reverse_iff:
  assumes "distinct (map fst packages)"
  shows "(P \<in> set (concat (map (\<lambda>(p, pkg). replicate (count_list (Imports pkg) Q) p) packages)))
           = (\<exists>pkg. map_of packages P = Some pkg \<and> Q \<in> set (Imports pkg))"
  using assms
proof (induction packages)
  case Nil
  then show ?case by simp
next
  case (Cons a packages)
  obtain p pkg where a: "a = (p, pkg)" by (cases a)
  have np: "map_of packages p = None"
    using Cons.prems a by (simp add: map_of_eq_None_iff)
  show ?case
    using Cons np by (auto simp: a count_list_0_iff)
qed

lemma transposed_rebuilt:
  assumes "distinct (map fst packages)" and "\<not> testImports g"
  shows "transposed (rebuilt w g packages)"
  unfolding transposed_def
proof (intro allI)
  fix P Q
  have "at_key (reverseDeps (rebuilt w g packages)) Q =
      concat (map (\<lambda>(p, pkg). replicate (count_list (Imports pkg) Q) p) packages)"
    using assms(2) buildGraph_reverse[of packages "[]" "[]" Q] by (simp add: rebuilt_def)
  then have "(P \<in> set (at_key (reverseDeps (rebuilt w g packages)) Q))
          = (\<exists>pkg. map_of packages P = Some pkg \<and> Q \<in> set (Imports pkg))"
    using in_reverse_iff[OF assms(1), of P Q] by simp
  moreover have "at_key (dependencyGraph (rebuilt w g packages)) P =
      (case map_of packages P of Some pkg \<Rightarrow> Imports pkg | None \<Rightarrow> [])"
    using buildGraph_forward[OF assms(1), of "testImports g" "[]" "[]" P]
    by (simp add: rebuilt_def split: option.splits)
  then have "(Q \<in> set (at_key (dependencyGraph (rebuilt w g packages)) P))
          = (\<exists>pkg. map_of packages P = Some pkg \<and> Q \<in> set (Imports pkg))"
    by (simp split: option.splits)
  ultimately show "(P \<in> set (at_key (reverseDeps (rebuilt w g packages)) Q))
      = (Q \<in> set (at_key (dependencyGraph (rebuilt w g packages)) P))"
    by simp
qed

lemma getPackages_from_distinct:
  "getPackages_from w root paths acc = Inr packages \<Longrightarrow> distinct (map fst acc) \<Longrightarrow>
     distinct (map fst packages)"
  by (induction paths arbitrary: acc)
     (auto simp: distinct_update split: option.splits)

lemma getPackages_distinct:
  "getPackages w root paths = Inr packages \<Longrightarrow> distinct (map fst packages)"
  using getPackages_from_distinct[of w root paths "[]" packages] by (simp add: getPackages_def)

lemma transposed_after_rebuildCache:
  assumes "rebuildCache w g = (None, g')" and "\<not> testImports g"
  shows "transposed g'"
proof -
  obtain allPaths packages where l: "listPackages w (rootDir g) ''./...'' = Inr allPaths"
    and p: "getPackages w (rootDir g) allPaths = Inr packages"
    using assms(1) by (auto simp: rebuildCache_def Let_def split: sum.splits)
  have "g' = rebuilt w g packages"
    using rebuildCache_rebuilt[OF l p] assms(1) by simp
  then show ?thesis
    using transposed_rebuilt[OF getPackages_distinct[OF p] assms(2)] by simp
qed

lemma distinct_count_le_1: "distinct xs \<Longrightarrow> count_list xs x \<le> 1"
  by (induction xs) (auto simp: count_list_0_iff)

lemma addReverseDep_distinct:
  "distinct (at_key rd k) \<Longrightarrow> distinct (at_key (addReverseDep rd t d) k)"
  by (auto simp: at_key_addReverseDep)

lemma removeReverseDep_distinct:
  "distinct (at_key rd k) \<Longrightarrow> distinct (at_key (removeReverseDep rd t d) k)"
  by (auto simp: at_key_removeReverseDep)

lemma distinct_reverse_entries:
  assumes "distinct (map fst packages)"
    and "\<forall>(p, pkg) \<in> set packages. distinct (Imports pkg)"
  shows "distinct (concat (map (\<lambda>(p, pkg). replicate (count_list (Imports pkg) Q) p) packages))"
  using assms
proof (induction packages)
  case Nil
  then show ?case by simp
next
  case (Cons a packages)
  obtain p pkg where a: "a = (p, pkg)" by (cases a)
  have "distinct (Imports pkg)"
    using Cons.prems(2) a by simp
  then have one: "count_list (Imports pkg) Q \<le> 1"
    by (rule distinct_count_le_1)
  have fresh: "p \<notin> set (concat (map (\<lambda>(p, pkg). replicate (count_list (Imports pkg) Q) p)
                                  packages))"
    using Cons.prems(1) a by (auto simp: image_iff)
  have "distinct (replicate (count_list (Imports pkg) Q) p)"
    using one by (cases "count_list (Imports pkg) Q") auto
  then show ?case
    using Cons fresh a by auto
qed

lemma singleEntries_rebuilt:
  assumes "distinct (map fst packages)" and "\<not> testImports g"
    and "\<forall>(p, pkg) \<in> set packages. distinct (Imports pkg)"
  shows "singleEntries (rebuilt w g packages)"
  unfolding singleEntries_def
  using assms(2) buildGraph_reverse[of packages "[]" "[]"]
    distinct_reverse_entries[OF assms(1,3)]
  by (simp add: rebuilt_def)

lemma dropRemovedImports_distinct:
  "distinct (at_key rd k) \<Longrightarrow> distinct (at_key (dropRemovedImports rd P newImports oldImports) k)"
  by (induction oldImports arbitrary: rd) (simp_all add: removeReverseDep_distinct)

lemma addAddedImports_distinct:
  "distinct (at_key rd k) \<Longrightarrow> distinct (at_key (addAddedImports rd P oldImports newImports) k)"
  by (induction newImports arbitrary: rd) (simp_all add: addReverseDep_distinct)

lemma transposed_after_refresh:
  assumes "cachedModule g" and "filepath_Abs w filePath = Some absPath"
    and "searchCachedPackages w (testImports g) absPath (packageCache g) = Some P"
    and "P \<noteq> []" and "map_of (packageCache g) P = Some pkg"
    and "build_ImportDir w (Dir pkg) = Some newPkg"
    and "refreshPackageCache w g filePath = (e, g')"
    and "transposed g" and "singleEntries g"
  shows "e = None \<and> transposed g' \<and> singleEntries g'"
proof -
  define oldImports where "oldImports = at_key (dependencyGraph g) P"
  define newImports where "newImports =
    (if testImports g then Imports newPkg @ TestImports newPkg @ XTestImports newPkg
     else Imports newPkg)"
  let ?rd1 = "dropRemovedImports (reverseDeps g) P newImports oldImports"
  let ?rd2 = "addAddedImports ?rd1 P oldImports newImports"
  have r: "e = None"
    "g' = g\<lparr>packageCache := AList.update P newPkg (packageCache g),
             dependencyGraph := AList.update P newImports (dependencyGraph g),
             reverseDeps := ?rd2\<rparr>"
    using refreshPackageCache_cached[OF assms(1,2,3,4,5,6)] assms(7)
    by (simp_all add: Let_def oldImports_def newImports_def)
  have single: "singleEntries g'"
    using assms(9)
    by (simp add: singleEntries_def r(2) addAddedImports_distinct dropRemovedImports_distinct)
  have tr: "transposed g'"
    unfolding transposed_def
  proof (intro allI)
    fix A Q
    show "(A \<in> set (at_key (reverseDeps g') Q)) = (Q \<in> set (at_key (dependencyGraph g') A))"
    proof (cases "A = P")
      case False
      have "count_list (at_key ?rd2 Q) A = count_list (at_key (reverseDeps g) Q) A"
        using False by (simp add: addAddedImports_others dropRemovedImports_others)
      then have "(A \<in> set (at_key ?rd2 Q)) = (A \<in> set (at_key (reverseDeps g) Q))"
        by (metis count_list_0_iff)
      then show ?thesis
        using False assms(8) by (simp add: r(2) at_key_update transposed_def)
    next
      case True
      have old: "(P \<in> set (at_key (reverseDeps g) Q)) = (Q \<in> set oldImports)"
        using assms(8) by (simp add: transposed_def oldImports_def)
      have "(P \<in> set (at_key ?rd2 Q)) = (Q \<in> set newImports)"
      proof (cases "Q \<in> set newImports")
        case new: True
        show ?thesis
        proof (cases "Q \<in> set oldImports")
          case True
          then have "at_key ?rd2 Q = at_key (reverseDeps g) Q"
            using new by (simp add: addAddedImports_same dropRemovedImports_same)
          then show ?thesis
            using old True new by simp
        next
          case False
          then show ?thesis
            using new addAddedImports_adds[of Q newImports oldImports P ?rd1] by simp
        qed
      next
        case gone: False
        have same: "at_key ?rd2 Q = at_key ?rd1 Q"
          using gone by (simp add: addAddedImports_same)
        show ?thesis
        proof (cases "Q \<in> set oldImports")
          case True
          have "distinct (at_key (reverseDeps g) Q)"
            using assms(9) by (simp add: singleEntries_def)
          then have "count_list (at_key (reverseDeps g) Q) P \<le> 1"
            by (rule distinct_count_le_1)
          moreover have "count_list oldImports Q \<noteq> 0"
            using True by (simp add: count_list_0_iff)
          ultimately have "count_list (at_key ?rd1 Q) P = 0"
            using dropRemovedImports_count[OF gone, of "reverseDeps g" P oldImports] by simp
          then show ?thesis
            using same gone by (simp add: count_list_0_iff)
        next
          case False
          then have "at_key ?rd1 Q = at_key (reverseDeps g) Q"
            by (simp add: dropRemovedImports_same)
          then show ?thesis
            using same old False gone by simp
        qed
      qed
      then show ?thesis
        using True by (simp add: r(2) at_key_update)
    qed
  qed
  show ?thesis
    using r(1) tr single by simp
qed

section \<open>Ownership on a cache that the query itself populates\<close>

lemma ensure_result:
  assumes "ensureCacheInitialized w g = (None, g1)"
  shows "cachedModule g1" and "rootDir g1 = rootDir g"
proof -
  have "cachedModule g1 \<and> rootDir g1 = rootDir g"
  proof (cases "cachedModule g")
    case True
    then show ?thesis
      using assms by (simp add: ensureCacheInitialized_def)
  next
    case False
    then have "rebuildCache w g = (None, g1)"
      using assms by (simp add: ensureCacheInitialized_def)
    then show ?thesis
      by (auto simp: rebuildCache_def Let_def split: sum.splits)
  qed
  then show "cachedModule g1" and "rootDir g1 = rootDir g"
    by simp_all
qed

lemma checkPackageBasedOwnership_resolved:
  assumes "ensureCacheInitialized w g = (None, g1)"
    and "map_of (filePathToPackage g1) a = Some u" and "u \<noteq> []"
    and "u \<notin> set (mainPackages g1)"
    and "parseFileImports w (if \<not> filepath_IsAbs w h then filepath_Join w (rootDir g) h else h)
           = Some imports"
  shows "checkPackageBasedOwnership w g h a = ((pullsIn g1 imports u, None), g1)"
proof -
  have c: "cachedModule g1" and r: "rootDir g1 = rootDir g"
    using ensure_result[OF assms(1)] by simp_all
  have p: "parseFileImports w (if \<not> filepath_IsAbs w h then filepath_Join w (rootDir g1) h
                              else h) = Some imports"
    using assms(5) unfolding r .
  have "findPackageForFile w g a = (Inr u, g1)"
    using assms(1,2) by (simp add: findPackageForFile_def)
  then show ?thesis
    using assms(3) doesPackageBelongToHandler_library[OF assms(4)]
      handlerFileImportsPackage_pullsIn[OF c p]
    by (simp add: checkPackageBasedOwnership_def)
qed

lemma site_cold_start: "ensureCacheInitialized site (New ''/r'') = (None, site_cache)"
  using site_rebuild by (simp add: ensureCacheInitialized_def New_def)

lemma site_cold_paths:
  "(if \<not> filepath_IsAbs site ''app/server.go''
    then filepath_Join site (rootDir (New ''/r'')) ''app/server.go'' else ''app/server.go'')
     = ''/r/app/server.go''"
  "(if \<not> filepath_IsAbs site ''app/wasm.go''
    then filepath_Join site (rootDir (New ''/r'')) ''app/wasm.go'' else ''app/wasm.go'')
     = ''/r/app/wasm.go''"
  by (simp_all add: site_def New_def unix_IsAbs_def unix_Join_def)

lemma site_cold_dom:
  "inputsOk site (New ''/r'') ''app/server.go'' ''/r/dom/dom.go'' ''/r/dom/dom.go''"
  "inputsOk site (New ''/r'') ''app/wasm.go'' ''/r/dom/dom.go'' ''/r/dom/dom.go''"
  "fileOk site ''/r/dom/dom.go''"
  "\<not> isOwnMain (New ''/r'') ''app/server.go'' ''/r/dom/dom.go''"
  "\<not> isOwnMain (New ''/r'') ''app/wasm.go'' ''/r/dom/dom.go''"
  by (simp_all add: inputsOk_def fileOk_def isOwnMain_def IsValidGoFile_def hasValidGoSyntax_def
        TrimPrefix_def site_def New_def unix_IsAbs_def unix_Abs_def unix_Join_def
        unix_Ext_def site_files_def)

lemma site_cold_util:
  "inputsOk site (New ''/r'') ''app/server.go'' ''/r/util/util.go'' ''/r/util/util.go''"
  "inputsOk site (New ''/r'') ''app/wasm.go'' ''/r/util/util.go'' ''/r/util/util.go''"
  "fileOk site ''/r/util/util.go''"
  "\<not> isOwnMain (New ''/r'') ''app/server.go'' ''/r/util/util.go''"
  "\<not> isOwnMain (New ''/r'') ''app/wasm.go'' ''/r/util/util.go''"
  by (simp_all add: inputsOk_def fileOk_def isOwnMain_def IsValidGoFile_def hasValidGoSyntax_def
        TrimPrefix_def site_def New_def unix_IsAbs_def unix_Abs_def unix_Join_def
        unix_Ext_def site_files_def)

section \<open>Properties of the specification\<close>

text \<open>
  C1.  Let \<open>g1\<close> be the cache as the query finds or populates it, let \<open>m1\<close> and \<open>m2\<close> be
  two handler main files of one directory whose own import lists are \<open>imports1\<close> and
  \<open>imports2\<close>, and let the exact-path index resolve the changed file to the package \<open>u\<close>,
  which is not a main package.  Then each handler owns the
  file exactly if its own main file pulls in \<open>u\<close>, directly or transitively.  If the two
  import lists pull in disjoint sets of packages, a file of a package pulled in by \<open>m2\<close> is
  not owned by \<open>m1\<close>, and a file of a package pulled in by \<open>m1\<close> is not owned by \<open>m2\<close>.
\<close>

theorem C1_ownership_follows_the_handler_file:
  assumes "ensureCacheInitialized w g = (None, g1)"
    and "parseFileImports w (if \<not> filepath_IsAbs w m1 then filepath_Join w (rootDir g) m1
                            else m1) = Some imports1"
    and "parseFileImports w (if \<not> filepath_IsAbs w m2 then filepath_Join w (rootDir g) m2
                            else m2) = Some imports2"
    and "filepath_Dir w m1 = filepath_Dir w m2"
    and "inputsOk w g m1 f a" and "inputsOk w g m2 f a" and "fileOk w a"
    and "\<not> isOwnMain g m1 a" and "\<not> isOwnMain g m2 a"
    and "map_of (filePathToPackage g1) a = Some u" and "u \<noteq> []"
    and "u \<notin> set (mainPackages g1)"
  shows "ThisFileIsMine w g m1 f event = ((pullsIn g1 imports1 u, None), g1)
       \<and> ThisFileIsMine w g m2 f event = ((pullsIn g1 imports2 u, None), g1)
       \<and> ((\<forall>p. \<not> (pullsIn g1 imports1 p \<and> pullsIn g1 imports2 p)) \<longrightarrow>
            (pullsIn g1 imports2 u \<longrightarrow> ThisFileIsMine w g m1 f event = ((False, None), g1))
            \<and> (pullsIn g1 imports1 u \<longrightarrow> ThisFileIsMine w g m2 f event = ((False, None), g1)))"
proof -
  have one: "ThisFileIsMine w g m1 f event = ((pullsIn g1 imports1 u, None), g1)"
    using ThisFileIsMine_other[OF assms(5,7,8), of event]
      checkPackageBasedOwnership_resolved[OF assms(1,10,11,12,2)] by simp
  have two: "ThisFileIsMine w g m2 f event = ((pullsIn g1 imports2 u, None), g1)"
    using ThisFileIsMine_other[OF assms(6,7,9), of event]
      checkPackageBasedOwnership_resolved[OF assms(1,10,11,12,3)] by simp
  show ?thesis
    using one two by auto
qed

theorem C1_witness:
  "ensureCacheInitialized site (New ''/r'') = (None, site_cache)
   \<and> parseFileImports site ''/r/app/server.go'' = Some [''t/db'']
   \<and> parseFileImports site ''/r/app/wasm.go'' = Some [''t/dom'']
   \<and> filepath_Dir site ''app/server.go'' = filepath_Dir site ''app/wasm.go''
   \<and> (\<forall>p. \<not> (pullsIn site_cache [''t/db''] p \<and> pullsIn site_cache [''t/dom''] p))
   \<and> map_of (filePathToPackage site_cache) ''/r/dom/dom.go'' = Some ''t/dom''
   \<and> ''t/dom'' \<notin> set (mainPackages site_cache)
   \<and> pullsIn site_cache [''t/dom''] ''t/dom''
   \<and> ThisFileIsMine site (New ''/r'') ''app/server.go'' ''/r/dom/dom.go'' ''write''
       = ((False, None), site_cache)
   \<and> ThisFileIsMine site (New ''/r'') ''app/wasm.go'' ''/r/dom/dom.go'' ''write''
       = ((True, None), site_cache)
   \<and> map_of (filePathToPackage site_cache) ''/r/util/util.go'' = Some ''t/util''
   \<and> ''t/util'' \<notin> set (mainPackages site_cache)
   \<and> pullsIn site_cache [''t/db''] ''t/util''
   \<and> ThisFileIsMine site (New ''/r'') ''app/wasm.go'' ''/r/util/util.go'' ''write''
       = ((False, None), site_cache)
   \<and> ThisFileIsMine site (New ''/r'') ''app/server.go'' ''/r/util/util.go'' ''write''
       = ((True, None), site_cache)"
proof -
  have p1: "parseFileImports site
      (if \<not> filepath_IsAbs site ''app/server.go''
       then filepath_Join site (rootDir (New ''/r'')) ''app/server.go'' else ''app/server.go'')
      = Some [''t/db'']"
    unfolding site_cold_paths by (rule site_server_imports)
  have p2: "parseFileImports site
      (if \<not> filepath_IsAbs site ''app/wasm.go''
       then filepath_Join site (rootDir (New ''/r'')) ''app/wasm.go'' else ''app/wasm.go'')
      = Some [''t/dom'']"
    unfolding site_cold_paths by (rule site_wasm_imports)
  have d: "filepath_Dir site ''app/server.go'' = filepath_Dir site ''app/wasm.go''"
    by (simp add: site_def unix_Dir_def)
  have dj: "\<forall>p. \<not> (pullsIn site_cache [''t/db''] p \<and> pullsIn site_cache [''t/dom''] p)"
    using site_subtrees_disjoint by blast
  have m_dom: "map_of (filePathToPackage site_cache) ''/r/dom/dom.go'' = Some ''t/dom''"
    and m_util: "map_of (filePathToPackage site_cache) ''/r/util/util.go'' = Some ''t/util''"
    and n_dom: "''t/dom'' \<notin> set (mainPackages site_cache)"
    and n_util: "''t/util'' \<notin> set (mainPackages site_cache)"
    by (simp_all add: site_cache_def)
  have r_dom: "pullsIn site_cache [''t/dom''] ''t/dom''"
    by (simp add: pullsIn_def)
  have r_util: "pullsIn site_cache [''t/db''] ''t/util''"
    unfolding pullsIn_cachedMain by code_simp
  have dom: "ThisFileIsMine site (New ''/r'') ''app/server.go'' ''/r/dom/dom.go'' ''write''
       = ((False, None), site_cache)
     \<and> ThisFileIsMine site (New ''/r'') ''app/wasm.go'' ''/r/dom/dom.go'' ''write''
       = ((True, None), site_cache)"
    using C1_ownership_follows_the_handler_file[OF site_cold_start p1 p2 d site_cold_dom m_dom
            _ n_dom, of "''write''"] dj r_dom by auto
  have util: "ThisFileIsMine site (New ''/r'') ''app/wasm.go'' ''/r/util/util.go'' ''write''
       = ((False, None), site_cache)
     \<and> ThisFileIsMine site (New ''/r'') ''app/server.go'' ''/r/util/util.go'' ''write''
       = ((True, None), site_cache)"
    using C1_ownership_follows_the_handler_file[OF site_cold_start p1 p2 d site_cold_util m_util
            _ n_util, of "''write''"] dj r_util by auto
  show ?thesis
    using site_cold_start site_server_imports site_wasm_imports d dj m_dom n_dom r_dom dom
      m_util n_util r_util util by blast
qed




text \<open>
  C3.  The code does not keep the reverse index equal to the transpose of the dependency
  graph.  Population without test imports establishes the transpose and a refresh keeps it
  (\<open>transposed_after_rebuildCache\<close>, \<open>transposed_after_refresh\<close>), but
  \<^verbatim>\<open>invalidatePackageCache\<close>, which every create, remove and rename runs, deletes
  the forward entry of the package and leaves the package in the reverse lists of its
  imports.  After the create event for the handler's own main file on the sample, \<^verbatim>\<open>t/app\<close>
  is still listed as a dependent of \<^verbatim>\<open>t/db\<close> although the graph has no edge from \<^verbatim>\<open>t/app\<close>
  any more; after the remove event for \<^verbatim>\<open>db/db.go\<close>, \<^verbatim>\<open>t/db\<close> is still listed as a dependent
  of \<^verbatim>\<open>t/util\<close>, with either copy of the cache file.
\<close>

theorem C3_events_break_the_transpose:
  "(case ThisFileIsMine site (New ''/r'') ''app/server.go'' ''/r/app/server.go'' ''create'' of
      ((owned, err), g) \<Rightarrow>
        owned \<and> err = None
        \<and> ''t/app'' \<in> set (at_key (reverseDeps g) ''t/db'')
        \<and> ''t/db'' \<notin> set (at_key (dependencyGraph g) ''t/app''))
   \<and> (case updateCacheForFileWithContext site_db_removed site_cache ''/r/db/db.go'' ''remove''
              ''app/server.go'' of
         (err, g) \<Rightarrow>
           err = None
           \<and> ''t/db'' \<in> set (at_key (reverseDeps g) ''t/util'')
           \<and> ''t/util'' \<notin> set (at_key (dependencyGraph g) ''t/db''))
   \<and> (case updateCacheForFileWithContext2 site_db_removed site_cache ''/r/db/db.go'' ''remove''
              ''app/server.go'' of
         (err, g) \<Rightarrow>
           err = None
           \<and> ''t/db'' \<in> set (at_key (reverseDeps g) ''t/util'')
           \<and> ''t/util'' \<notin> set (at_key (dependencyGraph g) ''t/db''))"
  by code_simp

text \<open>
  C4.  After the remove event that drops \<^verbatim>\<open>t/db\<close> from the sample cache, the reverse list
  of \<^verbatim>\<open>t/util\<close> still names \<^verbatim>\<open>t/db\<close> as a dependent, and the transitive query from \<^verbatim>\<open>t/app\<close>
  for \<^verbatim>\<open>t/db\<close> still answers true, because the forward list of \<^verbatim>\<open>t/app\<close> keeps the edge.
  The second copy of the cache file removes that forward edge but also leaves the reverse
  entry.
\<close>

theorem C4_remove_leaves_stale_edges:
  "(case updateCacheForFileWithContext site_db_removed site_cache ''/r/db/db.go'' ''remove''
           ''app/server.go'' of
      (err, g) \<Rightarrow>
        err = None
        \<and> map_of (packageCache g) ''t/db'' = None
        \<and> map_of (dependencyGraph g) ''t/db'' = None
        \<and> map_of (filePathToPackage g) ''/r/db/db.go'' = None
        \<and> ''t/db'' \<in> set (at_key (reverseDeps g) ''t/util'')
        \<and> ''t/app'' \<noteq> ''t/db''
        \<and> fst (cachedImports (dependencyGraph g) ''t/app'' ''t/db'' []))
   \<and> (case updateCacheForFileWithContext2 site_db_removed site_cache ''/r/db/db.go'' ''remove''
              ''app/server.go'' of
         (err, g) \<Rightarrow>
           err = None
           \<and> map_of (packageCache g) ''t/db'' = None
           \<and> ''t/db'' \<in> set (at_key (reverseDeps g) ''t/util'')
           \<and> \<not> fst (cachedImports (dependencyGraph g) ''t/app'' ''t/db'' []))"
  by code_simp

text \<open>
  C5.  On a populated cache a rebuild is reached only through the comparison of step 5 of
  \<^verbatim>\<open>ThisFileIsMine\<close>, which strips the prefix \<^verbatim>\<open>rootDir + "/"\<close> from the absolute path
  of the changed file and compares what is left with the handler's path.  With
  a relative root, the default \<^verbatim>\<open>.\<close> of \<^verbatim>\<open>New("")\<close> included, no absolute path has that prefix:
  a write to the handler's own main file is then handled like a write to any other file,
  answered from the cache as it is, and nothing is rebuilt.

  On the sample seen from the working directory \<^verbatim>\<open>/r\<close> with the empty root: the first query
  populates the cache before the package \<^verbatim>\<open>t/db\<close> exists; \<^verbatim>\<open>db/db.go\<close> is created and is not
  owned; \<^verbatim>\<open>server.go\<close> is edited to import \<^verbatim>\<open>t/db\<close>, and its write is answered \<open>(true, nil)\<close>
  with the cache unchanged, although \<^verbatim>\<open>isSameFile\<close> identifies the two paths and
  \<^verbatim>\<open>updateCacheForFileWithContext\<close>, had it been called, would have rebuilt the cache;
  afterwards \<^verbatim>\<open>db/db.go\<close> is still not owned, while on the rebuilt cache it is.  A write to
  \<^verbatim>\<open>app/wasm.go\<close>, which the default build leaves out of its package, is not even owned by
  the handler whose main file it is.  With the root \<^verbatim>\<open>/r\<close> the same sequence of events
  rebuilds the cache, and \<^verbatim>\<open>db/db.go\<close> is owned after the write.
\<close>

theorem C5_relative_root_skips_the_rebuild:
  "rootDir (New []) = ''.''
   \<and> ThisFileIsMine (without_db (without_import site_local)) (New []) ''app/server.go''
        ''app/server.go'' ''create'' = ((True, None), site_local_cache)
   \<and> ThisFileIsMine (without_import site_local) site_local_cache ''app/server.go''
        ''db/db.go'' ''create'' = ((False, None), site_local_cache)
   \<and> isSameFile site_local site_local_cache ''/r/app/server.go'' ''app/server.go''
   \<and> ThisFileIsMine site_local site_local_cache ''app/server.go'' ''app/server.go'' ''write''
       = ((True, None), site_local_cache)
   \<and> map_of (packageCache site_local_cache) ''t/db'' = None
   \<and> fst (ThisFileIsMine site_local site_local_cache ''app/server.go'' ''db/db.go'' ''write'')
       = (False, None)
   \<and> updateCacheForFileWithContext site_local site_local_cache ''/r/app/server.go'' ''write''
        ''app/server.go'' = rebuildCache site_local site_local_cache
   \<and> fst (rebuildCache site_local site_local_cache) = None
   \<and> map_of (filePathToPackage (snd (rebuildCache site_local site_local_cache))) ''db/db.go''
       = Some ''t/db''
   \<and> fst (ThisFileIsMine site_local (snd (rebuildCache site_local site_local_cache))
            ''app/server.go'' ''db/db.go'' ''write'') = (True, None)
   \<and> fst (ThisFileIsMine site_local site_local_cache ''app/wasm.go'' ''app/wasm.go'' ''write'')
       = (False, None)
   \<and> ThisFileIsMine (without_db (without_import site)) (New ''/r'') ''app/server.go''
        ''/r/app/server.go'' ''create'' = ((True, None), site_start_cache)
   \<and> ThisFileIsMine (without_import site) site_start_cache ''app/server.go'' ''/r/db/db.go''
        ''create'' = ((False, None), site_start_cache)
   \<and> ThisFileIsMine site site_start_cache ''app/server.go'' ''/r/app/server.go'' ''write''
       = ((True, None), site_cache)
   \<and> fst (ThisFileIsMine site site_cache ''app/server.go'' ''/r/db/db.go'' ''write'')
       = (True, None)"
  by code_simp




text \<open>
  C7.  The transitive-dependency query terminates on every dependency graph, cyclic ones
  included: every call lies in the domain on which the recursion is well founded.  The list
  of marked packages stays free of repetitions, so each package is expanded at most once
  per query.  With declared edges from \<open>a\<close> to \<open>b\<close> and from \<open>b\<close> to \<open>c\<close> the query from \<open>a\<close>
  for \<open>c\<close> answers true, whatever other edges (such as one from \<open>c\<close> back to \<open>a\<close>) exist.
\<close>

theorem C7_query_terminates_and_follows_edges:
  "cachedImports_cachedImports_range_dom (Inl (dependencyGraph g, a, c, []))
   \<and> distinct (snd (cachedImports (dependencyGraph g) a c []))
   \<and> (declares (dependencyGraph g) a b \<and> declares (dependencyGraph g) b c
        \<longrightarrow> cachedMainImportsPackage g a c)"
proof (intro conjI impI)
  show "cachedImports_cachedImports_range_dom (Inl (dependencyGraph g, a, c, []))"
    using cachedImports_all_dom by blast
  show "distinct (snd (cachedImports (dependencyGraph g) a c []))"
    by (rule cachedImports_distinct(1)) simp
next
  assume "declares (dependencyGraph g) a b \<and> declares (dependencyGraph g) b c"
  then have "(declares (dependencyGraph g))\<^sup>*\<^sup>* a c"
    by (meson rtranclp.rtrancl_into_rtrancl rtranclp.rtrancl_refl)
  then show "cachedMainImportsPackage g a c"
    unfolding cachedMainImportsPackage_def by (rule cachedImports_complete)
qed

theorem C7_witness:
  "declares cyclic_graph ''a'' ''b'' \<and> declares cyclic_graph ''b'' ''c''
   \<and> declares cyclic_graph ''c'' ''a''
   \<and> cachedMainImportsPackage (site_cache\<lparr>dependencyGraph := cyclic_graph\<rparr>) ''a'' ''c''"
  using C7_query_terminates_and_follows_edges
          [of "site_cache\<lparr>dependencyGraph := cyclic_graph\<rparr>" "''a''" "''c''" "''b''"]
  by (simp add: declares_def at_key_def cyclic_graph_def)

text \<open>
  C8.  Not every soft miss is answered without an error.  \<^verbatim>\<open>IsValidGoFile\<close> takes a parse
  error for an incomplete file only if its text contains \<^verbatim>\<open>expected\<close>, \<^verbatim>\<open>unexpected\<close> or
  \<^verbatim>\<open>found 'EOF'\<close>.  A write that finds \<^verbatim>\<open>db.go\<close> cut inside a string literal, where the parser
  says \<^verbatim>\<open>string literal not terminated\<close>, is answered with the error \<^verbatim>\<open>file validation failed\<close>,
  and so is the remove event for \<^verbatim>\<open>db.go\<close> once the file is gone from the disk, where
  \<^verbatim>\<open>os.Stat\<close> fails; step 4 of \<^verbatim>\<open>ThisFileIsMine\<close> carries the comment that it skips a file
  that does not exist or is being written.  A main file cut where the parser says
  \<^verbatim>\<open>expected declaration\<close> is answered \<open>(false, nil)\<close>, as the claim has it.
\<close>

theorem C8_incomplete_file_is_an_error:
  "os_ReadFile site_cut ''/r/db/db.go''
     = Some (''package db'' @ [CHR 0x0A] @ ''import '' @ [CHR 0x22] @ ''t/ut'')
   \<and> ThisFileIsMine site_cut site_cache ''app/server.go'' ''/r/db/db.go'' ''write''
     = ((False, Some (FileValidationFailed
                        (ParserFailed ''/r/db/db.go:2:8: string literal not terminated''))),
        site_cache)
   \<and> os_Stat site_db_removed ''/r/db/db.go'' = StatNotExist
   \<and> ThisFileIsMine site_db_removed site_cache ''app/server.go'' ''/r/db/db.go'' ''remove''
     = ((False, Some (FileValidationFailed StatFailed)), site_cache)
   \<and> ThisFileIsMine site_midwrite site_cache ''app/wasm.go'' ''/r/app/server.go'' ''write''
     = ((False, None), site_cache)"
  by code_simp

text \<open>
  C9.  When the exact lookup of the absolute path misses and the lookup of the path relative
  to the working directory misses (or cannot be made), \<^verbatim>\<open>findPackageForFile\<close> answers with
  the first package recorded under the file's base name, and with the empty string when
  none is recorded.
\<close>

theorem C9_by_name_fallback_takes_first:
  assumes "ensureCacheInitialized w g = (None, g1)"
    and "map_of (filePathToPackage g1) fileAbsPath = None"
    and "\<forall>cwd relPath. os_Getwd w = Some cwd \<and> filepath_Rel w cwd fileAbsPath = Some relPath
           \<longrightarrow> map_of (filePathToPackage g1) relPath = None"
  shows "findPackageForFile w g fileAbsPath =
           (Inr (case at_key (fileToPackages g1) (filepath_Base w fileAbsPath) of
                   [] \<Rightarrow> []
                 | pkg # packages \<Rightarrow> pkg), g1)"
  using assms by (rule findPackageForFile_fallback)

theorem C9_witness:
  "ensureCacheInitialized site shared_name_cache = (None, shared_name_cache)
   \<and> map_of (filePathToPackage shared_name_cache) ''/r/old/db.go'' = None
   \<and> filepath_Rel site ''/r'' ''/r/old/db.go'' = Some ''old/db.go''
   \<and> map_of (filePathToPackage shared_name_cache) ''old/db.go'' = None
   \<and> at_key (fileToPackages shared_name_cache) ''db.go'' = [''t/db'', ''t/alt'']
   \<and> findPackageForFile site shared_name_cache ''/r/old/db.go'' = (Inr ''t/db'', shared_name_cache)"
proof -
  have e: "ensureCacheInitialized site shared_name_cache = (None, shared_name_cache)"
    by (simp add: ensureCacheInitialized_def shared_name_cache_def site_cache_def)
  have m: "map_of (filePathToPackage shared_name_cache) ''/r/old/db.go'' = None"
    by (simp add: shared_name_cache_def site_cache_def)
  have r: "filepath_Rel site ''/r'' ''/r/old/db.go'' = Some ''old/db.go''"
    by (simp add: site_def unix_Rel_def)
  have g: "os_Getwd site = Some ''/r''"
    by (simp add: site_def)
  have m2: "map_of (filePathToPackage shared_name_cache) ''old/db.go'' = None"
    by (simp add: shared_name_cache_def site_cache_def)
  have b: "filepath_Base site ''/r/old/db.go'' = ''db.go''"
    by (simp add: site_def unix_Base_def)
  have k: "at_key (fileToPackages shared_name_cache) ''db.go'' = [''t/db'', ''t/alt'']"
    by (simp add: shared_name_cache_def at_key_def)
  have "findPackageForFile site shared_name_cache ''/r/old/db.go''
          = (Inr ''t/db'', shared_name_cache)"
    using C9_by_name_fallback_takes_first[OF e m] g r m2 b k by simp
  then show ?thesis
    using e m r m2 k by simp
qed

text \<open>
  C10.  For an event other than write, create, remove and rename,
  \<^verbatim>\<open>updateCacheForFileWithContext\<close> does what the lazy initialisation does and nothing
  else: on a populated cache it returns no error and the cache as it was, and on a cold
  cache whose packages can be listed and imported it returns no error and the populated
  cache.  On a populated cache \<^verbatim>\<open>ThisFileIsMine\<close> then leaves the cache as it was, and
  returns no error once its input checks have passed.
\<close>

theorem C10_unrecognized_event_is_noop:
  assumes "event \<notin> {''write'', ''create'', ''remove'', ''rename''}"
  shows "updateCacheForFileWithContext w g filePath event handlerMainFile
           = ensureCacheInitialized w g
       \<and> (cachedModule g \<longrightarrow>
            updateCacheForFileWithContext w g filePath event handlerMainFile = (None, g))
       \<and> (cachedModule g \<longrightarrow> snd (ThisFileIsMine w g h f event) = g)
       \<and> (cachedModule g \<and> inputsOk w g h f a \<and> fileOk w a \<longrightarrow>
            snd (fst (ThisFileIsMine w g h f event)) = None)
       \<and> (\<not> cachedModule g \<and> listPackages w (rootDir g) ''./...'' = Inr allPaths
            \<and> getPackages w (rootDir g) allPaths = Inr packages \<longrightarrow>
            updateCacheForFileWithContext w g filePath event handlerMainFile
              = (None, rebuilt w g packages))"
proof (intro conjI impI)
  show u: "updateCacheForFileWithContext w g filePath event handlerMainFile
             = ensureCacheInitialized w g"
    by (rule update_unrecognized[OF assms])
  show "updateCacheForFileWithContext w g filePath event handlerMainFile = (None, g)"
    if "cachedModule g"
    using u that by (simp add: ensure_cached)
  show "snd (ThisFileIsMine w g h f event) = g" if c: "cachedModule g"
  proof (cases "filepath_Abs w (if \<not> filepath_IsAbs w f then filepath_Join w (rootDir g) f
                                else f)")
    case None
    then show ?thesis
      by (cases "f = []"; cases "h = []") (simp_all add: ThisFileIsMine_def split del: if_split)
  next
    case (Some a')
    show ?thesis
    proof (cases "inputsOk w g h f a' \<and> fileOk w a'")
      case False
      then show ?thesis
        using ThisFileIsMine_keeps_state_early Some by blast
    next
      case True
      show ?thesis
      proof (cases "isOwnMain g h a'")
        case own: True
        have "updateCacheForFileWithContext w g a' event h = (None, g)"
          using update_unrecognized[OF assms] c by (simp add: ensure_cached)
        then show ?thesis
          using ThisFileIsMine_own[of w g h f a' event] True own by simp
      next
        case other: False
        then show ?thesis
          using ThisFileIsMine_other[of w g h f a' event] True
            checkPackageBasedOwnership_cached[OF c, of w h a'] by auto
      qed
    qed
  qed
  show "updateCacheForFileWithContext w g filePath event handlerMainFile
          = (None, rebuilt w g packages)"
    if "\<not> cachedModule g \<and> listPackages w (rootDir g) ''./...'' = Inr allPaths
          \<and> getPackages w (rootDir g) allPaths = Inr packages"
    using u that ensure_rebuilt[of w g allPaths packages] by simp
  show "snd (fst (ThisFileIsMine w g h f event)) = None"
    if t: "cachedModule g \<and> inputsOk w g h f a \<and> fileOk w a"
  proof (cases "isOwnMain g h a")
    case True
    have "updateCacheForFileWithContext w g a event h = (None, g)"
      using update_unrecognized[OF assms] t by (simp add: ensure_cached)
    then show ?thesis
      using ThisFileIsMine_own[of w g h f a event] True t by simp
  next
    case False
    then show ?thesis
      using ThisFileIsMine_other[of w g h f a event] t
        checkPackageBasedOwnership_cached[of g w h a] by auto
  qed
qed

theorem C10_witness:
  "''check'' \<notin> {''write'', ''create'', ''remove'', ''rename''}
   \<and> cachedModule site_cache
   \<and> inputsOk site site_cache ''app/server.go'' ''/r/db/db.go'' ''/r/db/db.go''
   \<and> fileOk site ''/r/db/db.go''
   \<and> updateCacheForFileWithContext site site_cache ''/r/db/db.go'' ''check'' ''app/server.go''
       = (None, site_cache)
   \<and> snd (ThisFileIsMine site site_cache ''app/server.go'' ''/r/db/db.go'' ''check'') = site_cache
   \<and> snd (fst (ThisFileIsMine site site_cache ''app/server.go'' ''/r/db/db.go'' ''check'')) = None
   \<and> \<not> cachedModule (New ''/r'')
   \<and> updateCacheForFileWithContext site (New ''/r'') ''/r/db/db.go'' ''check'' ''app/server.go''
       = (None, site_cache)"
proof -
  have ev: "''check'' \<notin> {''write'', ''create'', ''remove'', ''rename''}"
    by simp
  have c: "cachedModule site_cache"
    by (simp add: site_cache_def)
  have n: "\<not> cachedModule (New ''/r'')"
    by (simp add: New_def)
  have l: "listPackages site (rootDir (New ''/r'')) ''./...''
      = Inr [''t/app'', ''t/db'', ''t/dom'', ''t/util'']"
    using site_list by (simp add: New_def)
  have p: "getPackages site (rootDir (New ''/r'')) [''t/app'', ''t/db'', ''t/dom'', ''t/util'']
      = Inr (packageCache site_cache)"
    using site_get by (simp add: New_def)
  have "updateCacheForFileWithContext site (New ''/r'') ''/r/db/db.go'' ''check''
      ''app/server.go'' = (None, rebuilt site (New ''/r'') (packageCache site_cache))"
    by (rule C10_unrecognized_event_is_noop[OF ev, where w = site and g = "New ''/r''"
            and filePath = "''/r/db/db.go''" and handlerMainFile = "''app/server.go''"
            and allPaths = "[''t/app'', ''t/db'', ''t/dom'', ''t/util'']"
            and packages = "packageCache site_cache",
            THEN conjunct2, THEN conjunct2, THEN conjunct2, THEN conjunct2, THEN mp])
       (intro conjI n l p)
  then have cold: "updateCacheForFileWithContext site (New ''/r'') ''/r/db/db.go'' ''check''
      ''app/server.go'' = (None, site_cache)"
    by (simp only: site_rebuilt)
  note t = C10_unrecognized_event_is_noop[OF ev, where w = site and g = site_cache
            and filePath = "''/r/db/db.go''" and handlerMainFile = "''app/server.go''"
            and h = "''app/server.go''" and f = "''/r/db/db.go''" and a = "''/r/db/db.go''"]
  have w1: "updateCacheForFileWithContext site site_cache ''/r/db/db.go'' ''check''
        ''app/server.go'' = (None, site_cache)"
    by (rule t[THEN conjunct2, THEN conjunct1, THEN mp]) (rule c)
  have w2: "snd (ThisFileIsMine site site_cache ''app/server.go'' ''/r/db/db.go'' ''check'')
        = site_cache"
    by (rule t[THEN conjunct2, THEN conjunct2, THEN conjunct1, THEN mp]) (rule c)
  have w3: "snd (fst (ThisFileIsMine site site_cache ''app/server.go'' ''/r/db/db.go''
        ''check'')) = None"
    by (rule t[THEN conjunct2, THEN conjunct2, THEN conjunct2, THEN conjunct1, THEN mp])
       (intro conjI c site_inputs_db site_db_ok)
  show ?thesis
    by (intro conjI ev c site_inputs_db site_db_ok w1 w2 w3 n cold)
qed

end
